theory Spec2Isabelle
  imports Main "HOL-Library.Multiset"
begin

section \<open>Values, statements and the environment\<close>

text \<open>
  The two scripts \<^verbatim>\<open>seeder.py\<close> and \<^verbatim>\<open>seeder_rc.py\<close> each consist of one procedure,
  \<^verbatim>\<open>seed_data\<close>, that talks to three things outside the repository: the \<^verbatim>\<open>random\<close>
  module, the Faker library and a PostgreSQL connection (psycopg2). The model keeps the
  procedure as it is written and lets an environment answer every call that leaves it.

  Floating-point numbers are never evaluated: a float is kept as the expression that
  Python evaluates in double arithmetic. \<open>Dec m k\<close> is the decimal literal \<open>m / 10^k\<close> of
  the source, \<open>OfInt n\<close> an integer operand, \<open>Rand r\<close> the result \<open>r / 2^53\<close> of one call
  of \<^verbatim>\<open>random.random()\<close>.
\<close>

datatype flt = Dec int nat | OfInt int | Rand int | Add flt flt | Sub flt flt | Mul flt flt

text \<open>Python values that are bound to a statement or returned by the database. A date is
  its proleptic Gregorian ordinal.\<close>

datatype val = VNone | VBool bool | VInt int | VStr string | VFloat flt | VDate int

datatype error =
    IndexError | TypeError | ValueError | OverflowError
  | DatabaseError nat
  | FakerError nat

datatype tbl =
    LA_Party | LA_SpatialUnit | LA_BAUnit | TaxRateArea | TaxRate | TaxAssessment
  | SupplementalAssessment | LA_RRR | TaxBill | TaxPayment

text \<open>
  A statement is the parse of the SQL text handed to \<^verbatim>\<open>cur.execute\<close>. The value of a column
  is a placeholder \<^verbatim>\<open>%s\<close> (\<open>Param\<close>, filled from the parameter tuple by the driver), text
  that an f-string has put into the query (\<open>Interp\<close>, the pieces of the f-string), or a
  keyword of the constant query text (\<open>Keyword\<close>).
  \<open>Insert t cols returning\<close> is \<^verbatim>\<open>INSERT INTO ladm.t(cols) VALUES (...) RETURNING returning\<close>,
  \<open>Update t sets wheres\<close> is \<^verbatim>\<open>UPDATE ladm.t SET c = v, ... WHERE w = %s AND ...\<close>.
\<close>

datatype frag = Txt string | Num flt

datatype slot = Param | Interp "frag list" | Keyword string

datatype stmt =
    Insert tbl "(string \<times> slot) list" "string list"
  | Update tbl "(string \<times> slot) list" "string list"

text \<open>One executed statement: the query, the parameter tuple, and the row the database
  produced for it (what \<^verbatim>\<open>cur.fetchone()\<close> returns afterwards; \<open>None\<close> when there is none).\<close>

record entry =
  query :: stmt
  args :: "val list"
  result :: "val list option"

datatype call = Execute entry | Commit | Rollback | CursorClose | ConnClose

record world =
  calls :: "call list"
  stdout :: "string list"

datatype reply = Raises error | Gives "val list option"

text \<open>
  Each call of \<^verbatim>\<open>random\<close> is named by its place in the source (\<open>site\<close>) and by the
  iterations of the loops around it; within one run this names the call uniquely. The
  environment gives every such call a raw draw, an integer, and no relation between
  the draws of different calls is assumed.
\<close>

datatype site =
    PartyType | PartyIdent | PartyOrg
  | StreetNum | StreetSuffix | ZipCode | Lng | Lat | CadRef | Area
  | UnitName | Apn1 | Apn2 | Apn3 | Household
  | AssignedTra
  | AssessYear | BaseYear | BaseVal | Factor | RollType | AssessRate
  | SuppSample | SuppReason | SuppOld | SuppDelta | SuppRate | SuppDate
  | RrrParty | RrrDate
  | BillUnit | BillParty | BillDate | BillAmount | BillType
  | PaySample | PayCount | PayAmount
  | PaidCoin

record env =
  rnd :: "site \<Rightarrow> nat \<Rightarrow> nat \<Rightarrow> int"
  fake_name :: "nat \<Rightarrow> string"
  fake_address :: "nat \<Rightarrow> string"
  fake_street_name :: "nat \<Rightarrow> string"
  fake_date :: "site \<Rightarrow> nat \<Rightarrow> int"
  fake_pay_date :: "nat \<Rightarrow> nat \<Rightarrow> val \<Rightarrow> error + int"
  connect_reply :: "error option"
  execute_reply :: "nat \<Rightarrow> reply"
  commit_reply :: "error option"
  rollback_reply :: "error option"

datatype script = Seeder | SeederRC

datatype outcome = Returned | Raised error | RaisedInHandler error error

section \<open>The random module and small Python operations\<close>

text \<open>\<^verbatim>\<open>random.choice(xs)\<close>: IndexError on an empty sequence, else one of its elements.\<close>

definition choice :: "int \<Rightarrow> 'a list \<Rightarrow> error + 'a" where
  "choice r xs =
     (if xs = [] then Inl IndexError else Inr (xs ! nat (r mod int (length xs))))"

text \<open>\<^verbatim>\<open>random.choices(pop, k=k)\<close> on a non-empty literal population: \<open>k\<close> elements, with
  replacement.\<close>

definition choices :: "(nat \<Rightarrow> int) \<Rightarrow> 'a list \<Rightarrow> nat \<Rightarrow> 'a list" where
  "choices rs pop k = map (\<lambda>j. pop ! nat (rs j mod int (length pop))) [0..<k]"

text \<open>\<^verbatim>\<open>random.randint(a, b)\<close> for \<open>a \<le> b\<close>.\<close>

definition randint :: "int \<Rightarrow> int \<Rightarrow> int \<Rightarrow> int" where
  "randint a b r = a + r mod (b - a + 1)"

text \<open>\<^verbatim>\<open>random.random()\<close> returns \<open>k / 2^53\<close> for some \<open>k < 2^53\<close>; it is below \<open>0.5\<close> exactly
  when \<open>k < 2^52\<close>.\<close>

definition random01 :: "int \<Rightarrow> int" where
  "random01 r = r mod 2 ^ 53"

definition below_half :: "int \<Rightarrow> bool" where
  "below_half r = (random01 r < 2 ^ 52)"

text \<open>\<^verbatim>\<open>random.uniform(a, b)\<close> is \<^verbatim>\<open>a + (b - a) * self.random()\<close>.\<close>

definition uniform :: "flt \<Rightarrow> flt \<Rightarrow> int \<Rightarrow> flt" where
  "uniform a b r = Add a (Mul (Sub b a) (Rand (random01 r)))"

text \<open>
  \<^verbatim>\<open>random.sample(pop, k)\<close>: ValueError when \<open>k\<close> exceeds the population, else the elements
  at \<open>k\<close> different positions, in some order. \<open>pick\<close> draws a position of the remaining
  pool and removes it, which yields every such selection for a suitable choice of draws.
\<close>

fun pick :: "(nat \<Rightarrow> int) \<Rightarrow> nat \<Rightarrow> nat \<Rightarrow> 'a list \<Rightarrow> 'a list" where
  "pick rs j 0 pool = []"
| "pick rs j (Suc k) pool =
     (let i = nat (rs j mod int (length pool))
      in pool ! i # pick rs (Suc j) k (take i pool @ drop (Suc i) pool))"

definition sample :: "(nat \<Rightarrow> int) \<Rightarrow> 'a list \<Rightarrow> nat \<Rightarrow> error + 'a list" where
  "sample rs pop k = (if length pop < k then Inl ValueError else Inr (pick rs 0 k pop))"

definition digits :: string where
  "digits = ''0123456789''"

definition ascii_uppercase :: string where
  "ascii_uppercase = ''ABCDEFGHIJKLMNOPQRSTUVWXYZ''"

fun str_nat :: "nat \<Rightarrow> string" where
  "str_nat n = (if n < 10 then [digits ! n] else str_nat (n div 10) @ [digits ! (n mod 10)])"

declare str_nat.simps [simp del]

definition str_int :: "int \<Rightarrow> string" where
  "str_int n = (if n < 0 then CHR ''-'' # str_nat (nat (- n)) else str_nat (nat n))"

text \<open>\<^verbatim>\<open>s.replace('\n', ', ')\<close>.\<close>

definition replace_newlines :: "string \<Rightarrow> string" where
  "replace_newlines s = concat (map (\<lambda>c. if c = CHR 0x0A then '', '' else [c]) s)"

text \<open>\<^verbatim>\<open>s.split()[0]\<close>: the first maximal run of non-whitespace characters, IndexError when
  there is none.\<close>

definition is_space :: "char \<Rightarrow> bool" where
  "is_space c = (c \<in> set [CHR 0x09, CHR 0x0A, CHR 0x0B, CHR 0x0C, CHR 0x0D, CHR 0x1C,
     CHR 0x1D, CHR 0x1E, CHR 0x1F, CHR 0x20, CHR 0x85, CHR 0xA0])"

definition split_first :: "string \<Rightarrow> error + string" where
  "split_first s =
     (let t = dropWhile is_space s
      in if t = [] then Inl IndexError else Inr (takeWhile (\<lambda>c. \<not> is_space c) t))"

text \<open>\<^verbatim>\<open>cur.fetchone()[0]\<close>.\<close>

definition first_col :: "val list option \<Rightarrow> error + val" where
  "first_col row =
     (case row of None \<Rightarrow> Inl TypeError | Some [] \<Rightarrow> Inl IndexError | Some (v # _) \<Rightarrow> Inr v)"

text \<open>The unpacking \<^verbatim>\<open>for (b_date, b_uid) in ...\<close> of one fetched row.\<close>

definition unpack2 :: "val list option \<Rightarrow> error + (val \<times> val)" where
  "unpack2 row =
     (case row of None \<Rightarrow> Inl TypeError | Some [d, u] \<Rightarrow> Inr (d, u) | Some _ \<Rightarrow> Inl ValueError)"

text \<open>\<^verbatim>\<open>d + timedelta(days=n)\<close>: OverflowError beyond \<^verbatim>\<open>date.max\<close> (ordinal 3652059).\<close>

definition date_add :: "int \<Rightarrow> int \<Rightarrow> error + int" where
  "date_add d n = (if d + n < 1 \<or> 3652059 < d + n then Inl OverflowError else Inr (d + n))"

text \<open>A dictionary that keeps insertion order: \<^verbatim>\<open>m[k] = v\<close> and \<^verbatim>\<open>list(m.values())\<close>.\<close>

fun dict_set :: "('k \<times> 'v) list \<Rightarrow> 'k \<Rightarrow> 'v \<Rightarrow> ('k \<times> 'v) list" where
  "dict_set [] k v = [(k, v)]"
| "dict_set ((k', v') # m) k v = (if k' = k then (k, v) # m else (k', v') # dict_set m k v)"

definition dict_values :: "('k \<times> 'v) list \<Rightarrow> 'v list" where
  "dict_values m = map snd m"

section \<open>Procedures that may raise, on a world\<close>

type_synonym 'a run = "world \<Rightarrow> (error + 'a) \<times> world"

definition ret :: "'a \<Rightarrow> 'a run" where
  "ret x w = (Inr x, w)"

definition lift :: "error + 'a \<Rightarrow> 'a run" where
  "lift r w = (r, w)"

definition and_then :: "'a run \<Rightarrow> ('a \<Rightarrow> 'b run) \<Rightarrow> 'b run" where
  "and_then m f w = (case m w of (Inl e, w') \<Rightarrow> (Inl e, w') | (Inr a, w') \<Rightarrow> f a w')"

definition print :: "string \<Rightarrow> unit run" where
  "print line w = (Inr (), w\<lparr>stdout := stdout w @ [line]\<rparr>)"

text \<open>The statements executed so far, in order.\<close>

fun executed :: "call list \<Rightarrow> entry list" where
  "executed [] = []"
| "executed (Execute e # cs) = e # executed cs"
| "executed (_ # cs) = executed cs"

text \<open>
  \<^verbatim>\<open>cur.execute(query, params)\<close>: the database answers the \<open>n\<close>-th statement of the run
  with an exception or with the row it produced.
\<close>

definition execute :: "env \<Rightarrow> stmt \<Rightarrow> val list \<Rightarrow> (val list option) run" where
  "execute env q ps w =
     (case execute_reply env (length (executed (calls w))) of
        Raises e \<Rightarrow> (Inl e, w)
      | Gives row \<Rightarrow>
          (Inr row, w\<lparr>calls := calls w @ [Execute \<lparr>query = q, args = ps, result = row\<rparr>]\<rparr>))"

text \<open>A \<^verbatim>\<open>for\<close> loop over a list, with the variables it updates as accumulator; an exception
  ends it.\<close>

primrec for_each :: "('x \<Rightarrow> 'a \<Rightarrow> 'a run) \<Rightarrow> 'x list \<Rightarrow> 'a \<Rightarrow> 'a run" where
  "for_each body [] acc = ret acc"
| "for_each body (x # xs) acc = and_then (body x acc) (for_each body xs)"

text \<open>\<^verbatim>\<open>for _ in range(n)\<close>; the body gets the number of the iteration.\<close>

definition for_range :: "int \<Rightarrow> (nat \<Rightarrow> 'a \<Rightarrow> 'a run) \<Rightarrow> 'a \<Rightarrow> 'a run" where
  "for_range n body acc = for_each body [0..<nat n] acc"

text \<open>\<^verbatim>\<open>for x in xs\<close>; the body gets the number of the iteration and the element.\<close>

definition for_in :: "'x list \<Rightarrow> (nat \<times> 'x \<Rightarrow> 'a \<Rightarrow> 'a run) \<Rightarrow> 'a \<Rightarrow> 'a run" where
  "for_in xs body acc = for_each body (enumerate 0 xs) acc"

section \<open>The statements of the two scripts\<close>

text \<open>\<^verbatim>\<open>INSERT INTO ladm.LA_Party(party_name, party_type, identifier) VALUES (%s, %s, %s)
  RETURNING party_id\<close>\<close>

definition party_sql :: stmt where
  "party_sql = Insert LA_Party
     [(''party_name'', Param), (''party_type'', Param), (''identifier'', Param)]
     [''party_id'']"

text \<open>\<^verbatim>\<open>f"INSERT INTO ladm.LA_SpatialUnit(geometry, address, cadastral_ref, area_sq_m)
  VALUES ({geom_wkt}, %s, %s, %s) RETURNING spatial_unit_id"\<close>\<close>

definition spatial_sql :: "frag list \<Rightarrow> stmt" where
  "spatial_sql geom_wkt = Insert LA_SpatialUnit
     [(''geometry'', Interp geom_wkt), (''address'', Param), (''cadastral_ref'', Param),
      (''area_sq_m'', Param)]
     [''spatial_unit_id'']"

text \<open>\<^verbatim>\<open>INSERT INTO ladm.LA_BAUnit(unit_name, spatial_unit_id, assessor_parcel_number, tra_id)
  VALUES (%s, %s, %s, %s) RETURNING ba_unit_id\<close> (seeder.py)\<close>

definition baunit_sql :: stmt where
  "baunit_sql = Insert LA_BAUnit
     [(''unit_name'', Param), (''spatial_unit_id'', Param),
      (''assessor_parcel_number'', Param), (''tra_id'', Param)]
     [''ba_unit_id'']"

text \<open>\<^verbatim>\<open>INSERT INTO ladm.LA_BAUnit(unit_name, spatial_unit_id, assessor_parcel_number,
  description) VALUES (%s, %s, %s, %s) RETURNING ba_unit_id\<close> (seeder_rc.py)\<close>

definition baunit_rc_sql :: stmt where
  "baunit_rc_sql = Insert LA_BAUnit
     [(''unit_name'', Param), (''spatial_unit_id'', Param),
      (''assessor_parcel_number'', Param), (''description'', Param)]
     [''ba_unit_id'']"

text \<open>\<^verbatim>\<open>INSERT INTO ladm.TaxRateArea(tra_code, description) VALUES (%s, %s) RETURNING tra_id\<close>\<close>

definition tra_sql :: stmt where
  "tra_sql = Insert TaxRateArea [(''tra_code'', Param), (''description'', Param)] [''tra_id'']"

text \<open>\<^verbatim>\<open>INSERT INTO ladm.TaxRate(rate_name, rate_value, effective_date, expiration_date)
  VALUES (%s, %s, %s, %s) RETURNING tax_rate_id\<close>\<close>

definition tax_rate_sql :: stmt where
  "tax_rate_sql = Insert TaxRate
     [(''rate_name'', Param), (''rate_value'', Param), (''effective_date'', Param),
      (''expiration_date'', Param)]
     [''tax_rate_id'']"

text \<open>\<^verbatim>\<open>UPDATE ladm.LA_BAUnit SET tra_id = %s WHERE ba_unit_id = %s\<close>\<close>

definition assign_tra_sql :: stmt where
  "assign_tra_sql = Update LA_BAUnit [(''tra_id'', Param)] [''ba_unit_id'']"

text \<open>\<^verbatim>\<open>INSERT INTO ladm.TaxAssessment(ba_unit_id, assessment_year, base_year,
  base_year_value, prop_13_factor, current_assessed_value, roll_type, tax_rate_id)
  VALUES (%s, %s, %s, %s, %s, %s, %s, %s)\<close>\<close>

definition assessment_sql :: stmt where
  "assessment_sql = Insert TaxAssessment
     [(''ba_unit_id'', Param), (''assessment_year'', Param), (''base_year'', Param),
      (''base_year_value'', Param), (''prop_13_factor'', Param),
      (''current_assessed_value'', Param), (''roll_type'', Param), (''tax_rate_id'', Param)]
     []"

text \<open>\<^verbatim>\<open>INSERT INTO ladm.SupplementalAssessment(ba_unit_id, event_date, reason_code,
  old_value, new_value, difference_value, tax_rate_id) VALUES (%s, %s, %s, %s, %s, %s, %s)\<close>\<close>

definition supplemental_sql :: stmt where
  "supplemental_sql = Insert SupplementalAssessment
     [(''ba_unit_id'', Param), (''event_date'', Param), (''reason_code'', Param),
      (''old_value'', Param), (''new_value'', Param), (''difference_value'', Param),
      (''tax_rate_id'', Param)]
     []"

text \<open>\<^verbatim>\<open>INSERT INTO ladm.LA_RRR(rrr_type, ba_unit_id, party_id, start_date)
  VALUES (%s, %s, %s, %s)\<close>\<close>

definition rrr_sql :: stmt where
  "rrr_sql = Insert LA_RRR
     [(''rrr_type'', Param), (''ba_unit_id'', Param), (''party_id'', Param),
      (''start_date'', Param)]
     []"

text \<open>\<^verbatim>\<open>INSERT INTO ladm.TaxBill(bill_date, ba_unit_id, party_id, due_date, amount_due,
  is_paid, bill_type, supplemental_id) VALUES (%s, %s, %s, %s, %s, %s, %s, %s)
  RETURNING bill_date, bill_uid\<close>\<close>

definition bill_sql :: stmt where
  "bill_sql = Insert TaxBill
     [(''bill_date'', Param), (''ba_unit_id'', Param), (''party_id'', Param),
      (''due_date'', Param), (''amount_due'', Param), (''is_paid'', Param),
      (''bill_type'', Param), (''supplemental_id'', Param)]
     [''bill_date'', ''bill_uid'']"

text \<open>\<^verbatim>\<open>INSERT INTO ladm.TaxPayment(payment_date, bill_date, bill_uid, amount_paid)
  VALUES (%s, %s, %s, %s)\<close>\<close>

definition payment_sql :: stmt where
  "payment_sql = Insert TaxPayment
     [(''payment_date'', Param), (''bill_date'', Param), (''bill_uid'', Param),
      (''amount_paid'', Param)]
     []"

text \<open>\<^verbatim>\<open>UPDATE ladm.TaxBill SET is_paid = TRUE WHERE bill_date = %s AND bill_uid = %s\<close>\<close>

definition mark_paid_sql :: stmt where
  "mark_paid_sql = Update TaxBill [(''is_paid'', Keyword ''TRUE'')] [''bill_date'', ''bill_uid'']"

section \<open>seeder.py and seeder_rc.py\<close>

subsection \<open>Constants and generators\<close>

text \<open>The bounding boxes \<^verbatim>\<open>MIN_X, MAX_X, MIN_Y, MAX_Y\<close> of the two files.\<close>

definition bbox :: "script \<Rightarrow> (flt \<times> flt) \<times> (flt \<times> flt)" where
  "bbox sc = (case sc of
       Seeder \<Rightarrow> ((Dec (- 1170) 1, Dec (- 1150) 1), (Dec 330 1, Dec 340 1))
     | SeederRC \<Rightarrow> ((Dec (- 11750) 2, Dec (- 11725) 2), (Dec 3385 2, Dec 3400 2)))"

definition RIVERSIDE_ZIP_CODES :: "string list" where
  "RIVERSIDE_ZIP_CODES =
     [''92501'', ''92503'', ''92504'', ''92505'', ''92506'', ''92507'', ''92508'', ''92509'']"

definition STREET_SUFFIXES :: "string list" where
  "STREET_SUFFIXES = [''St'', ''Ave'', ''Blvd'', ''Rd'', ''Ln'', ''Way'', ''Dr'', ''Ct'']"

definition RIVERSIDE_AGENCIES :: "string list" where
  "RIVERSIDE_AGENCIES =
     [''Riverside County Assessor'' @ [CHR 0x27] @ ''s Office'', ''Riverside City Hall'',
      ''Riverside Water Department'', ''Riverside Unified School District'']"

definition RIVERSIDE_BUSINESSES :: "string list" where
  "RIVERSIDE_BUSINESSES =
     [''Mission Inn Hotel & Spa'', ''La Sierra University'',
      ''Riverside Community Hospital'', ''Galleria at Tyler'']"

text \<open>\<^verbatim>\<open>random_point_in_bbox\<close> (seeder.py) and \<^verbatim>\<open>random_point_in_riverside\<close> (seeder_rc.py):
  the f-string \<^verbatim>\<open>f"ST_SetSRID(ST_MakePoint({lng}, {lat}), 4326)"\<close>.\<close>

definition random_point :: "script \<Rightarrow> env \<Rightarrow> nat \<Rightarrow> frag list" where
  "random_point sc env i =
     (case bbox sc of ((min_x, max_x), (min_y, max_y)) \<Rightarrow>
        let lng = uniform min_x max_x (rnd env Lng i 0);
            lat = uniform min_y max_y (rnd env Lat i 0)
        in [Txt ''ST_SetSRID(ST_MakePoint('', Num lng, Txt '', '', Num lat, Txt ''), 4326)''])"

text \<open>\<^verbatim>\<open>generate_riverside_address\<close> (seeder_rc.py).\<close>

definition generate_riverside_address :: "env \<Rightarrow> nat \<Rightarrow> string run" where
  "generate_riverside_address env i =
     (let street_num = randint 100 9999 (rnd env StreetNum i 0) in
      and_then (lift (split_first (fake_street_name env i))) (\<lambda>street_name.
      and_then (lift (choice (rnd env StreetSuffix i 0) STREET_SUFFIXES)) (\<lambda>suffix.
      and_then (lift (choice (rnd env ZipCode i 0) RIVERSIDE_ZIP_CODES)) (\<lambda>zip_code.
      ret (str_int street_num @ '' '' @ street_name @ '' '' @ suffix @ [CHR 0x0A]
           @ ''Riverside'' @ '', '' @ ''CA'' @ '' '' @ zip_code)))))"

text \<open>\<^verbatim>\<open>generate_riverside_party\<close> (seeder_rc.py).\<close>

definition generate_riverside_party :: "env \<Rightarrow> nat \<Rightarrow> string \<Rightarrow> (string \<times> string) run" where
  "generate_riverside_party env i party_type =
     (if party_type = ''Individual'' then ret (fake_name env i, ''Individual'')
      else if party_type = ''Company'' then
        and_then (lift (choice (rnd env PartyOrg i 0) RIVERSIDE_BUSINESSES)) (\<lambda>name.
        ret (name, ''Company''))
      else
        and_then (lift (choice (rnd env PartyOrg i 0) RIVERSIDE_AGENCIES)) (\<lambda>name.
        ret (name, ''GovAgency'')))"

subsection \<open>1) Parties\<close>

definition party_name_and_type :: "script \<Rightarrow> env \<Rightarrow> nat \<Rightarrow> (string \<times> string) run" where
  "party_name_and_type sc env i =
     (case sc of
        Seeder \<Rightarrow>
          (let party_name = fake_name env i in
           and_then (lift (choice (rnd env PartyType i 0)
                       [''Individual'', ''Company'', ''GovAgency''])) (\<lambda>party_type.
           ret (party_name, party_type)))
      | SeederRC \<Rightarrow>
          and_then (lift (choice (rnd env PartyType i 0)
                      [''Individual'', ''Company'', ''GovAgency''])) (\<lambda>chosen_type.
          generate_riverside_party env i chosen_type))"

definition insert_party :: "script \<Rightarrow> env \<Rightarrow> nat \<Rightarrow> val list \<Rightarrow> val list run" where
  "insert_party sc env i party_ids =
     and_then (party_name_and_type sc env i) (\<lambda>(party_name, party_type).
     let ident = choices (rnd env PartyIdent i) digits 9 in
     and_then (execute env party_sql [VStr party_name, VStr party_type, VStr ident]) (\<lambda>row.
     and_then (lift (first_col row)) (\<lambda>new_id.
     ret (party_ids @ [new_id]))))"

definition parties :: "script \<Rightarrow> env \<Rightarrow> int \<Rightarrow> val list run" where
  "parties sc env num_parties =
     and_then (print ''Inserting Parties...'') (\<lambda>_.
     for_range num_parties (insert_party sc env) [])"

subsection \<open>2) Spatial units\<close>

definition make_address :: "script \<Rightarrow> env \<Rightarrow> nat \<Rightarrow> string run" where
  "make_address sc env i =
     (case sc of
        Seeder \<Rightarrow> ret (replace_newlines (fake_address env i))
      | SeederRC \<Rightarrow> generate_riverside_address env i)"

definition insert_spatial_unit :: "script \<Rightarrow> env \<Rightarrow> nat \<Rightarrow> val list \<Rightarrow> val list run" where
  "insert_spatial_unit sc env i spatial_ids =
     and_then (make_address sc env i) (\<lambda>address.
     let geom_wkt = random_point sc env i;
         cadastral_ref = ''CAD-'' @ choices (rnd env CadRef i) digits 6;
         area = uniform (Dec 2000 1) (Dec 200000 1) (rnd env Area i 0) in
     and_then (execute env (spatial_sql geom_wkt)
                 [VStr address, VStr cadastral_ref, VFloat area]) (\<lambda>row.
     and_then (lift (first_col row)) (\<lambda>sid.
     ret (spatial_ids @ [sid]))))"

definition spatial_units :: "script \<Rightarrow> env \<Rightarrow> int \<Rightarrow> val list run" where
  "spatial_units sc env num_parcels =
     and_then (print ''Inserting SpatialUnits...'') (\<lambda>_.
     for_range num_parcels (insert_spatial_unit sc env) [])"

subsection \<open>3) Administrative units\<close>

definition insert_baunit :: "script \<Rightarrow> env \<Rightarrow> nat \<times> val \<Rightarrow> val list \<Rightarrow> val list run" where
  "insert_baunit sc env x baunit_ids =
     (case x of (i, sid) \<Rightarrow>
      let unit_name = ''Parcel '' @ choices (rnd env UnitName i) ascii_uppercase 4;
          apn = choices (rnd env Apn1 i) digits 3 @ ''-'' @ choices (rnd env Apn2 i) digits 3
                @ ''-'' @ choices (rnd env Apn3 i) digits 3 in
      and_then
        (case sc of
           Seeder \<Rightarrow>
             (let tra_id = VNone in
              execute env baunit_sql [VStr unit_name, sid, VStr apn, tra_id])
         | SeederRC \<Rightarrow>
             (let household_size = randint 1 6 (rnd env Household i 0);
                  desc = ''Household Size: '' @ str_int household_size in
              execute env baunit_rc_sql [VStr unit_name, sid, VStr apn, VStr desc])) (\<lambda>row.
      and_then (lift (first_col row)) (\<lambda>buid.
      ret (baunit_ids @ [buid]))))"

definition ba_units :: "script \<Rightarrow> env \<Rightarrow> val list \<Rightarrow> val list run" where
  "ba_units sc env spatial_ids =
     and_then (print ''Inserting BAUnits...'') (\<lambda>_.
     for_in spatial_ids (insert_baunit sc env) [])"

subsection \<open>4) Tax rate areas and tax rates\<close>

definition tra_codes :: "(string \<times> string) list" where
  "tra_codes =
     [(''TRA_001'', ''Riverside City District''), (''TRA_002'', ''Murrieta District''),
      (''TRA_003'', ''Coachella District'')]"

definition insert_tra ::
  "env \<Rightarrow> nat \<times> string \<times> string \<Rightarrow> (string \<times> val) list \<Rightarrow> (string \<times> val) list run"
where
  "insert_tra env x tra_ids_map =
     (case x of (i, code, desc) \<Rightarrow>
      and_then (execute env tra_sql [VStr code, VStr desc]) (\<lambda>row.
      and_then (lift (first_col row)) (\<lambda>tra_id_new.
      ret (dict_set tra_ids_map code tra_id_new))))"

definition tax_rates_data :: "(string \<times> flt \<times> string \<times> val) list" where
  "tax_rates_data =
     [(''Base Prop 13 Rate'', Dec 100 4, ''2020-01-01'', VNone),
      (''Local Bond Measure'', Dec 15 4, ''2020-01-01'', VNone),
      (''Special School Tax'', Dec 8 4, ''2020-01-01'', VNone)]"

definition insert_tax_rate ::
  "env \<Rightarrow> nat \<times> string \<times> flt \<times> string \<times> val \<Rightarrow> val list \<Rightarrow> val list run"
where
  "insert_tax_rate env x tax_rate_ids =
     (case x of (i, name, v, eff_date, exp_date) \<Rightarrow>
      and_then (execute env tax_rate_sql [VStr name, VFloat v, VStr eff_date, exp_date]) (\<lambda>row.
      and_then (lift (first_col row)) (\<lambda>new_id.
      ret (tax_rate_ids @ [new_id]))))"

definition assign_tra :: "env \<Rightarrow> (string \<times> val) list \<Rightarrow> nat \<times> val \<Rightarrow> unit \<Rightarrow> unit run" where
  "assign_tra env tra_ids_map x u =
     (case x of (i, buid) \<Rightarrow>
      and_then (lift (choice (rnd env AssignedTra i 0) (dict_values tra_ids_map))) (\<lambda>assigned_tra.
      and_then (execute env assign_tra_sql [assigned_tra, buid]) (\<lambda>_.
      ret ())))"

definition rate_areas_and_rates :: "env \<Rightarrow> val list \<Rightarrow> val list run" where
  "rate_areas_and_rates env baunit_ids =
     and_then (print ''Inserting TaxRateArea & TaxRate...'') (\<lambda>_.
     and_then (for_in tra_codes (insert_tra env) []) (\<lambda>tra_ids_map.
     and_then (for_in tax_rates_data (insert_tax_rate env) []) (\<lambda>tax_rate_ids.
     and_then (for_in baunit_ids (assign_tra env tra_ids_map) ()) (\<lambda>_.
     ret tax_rate_ids))))"

subsection \<open>5) Tax assessments\<close>

definition insert_assessment :: "env \<Rightarrow> val list \<Rightarrow> nat \<times> val \<Rightarrow> unit \<Rightarrow> unit run" where
  "insert_assessment env tax_rate_ids x u =
     (case x of (i, buid) \<Rightarrow>
      and_then (lift (choice (rnd env AssessYear i 0) [2023, 2024, 2025 :: int])) (\<lambda>assessment_year.
      and_then (lift (choice (rnd env BaseYear i 0) [2018, 2019, 2020 :: int])) (\<lambda>base_year.
      let base_val = uniform (OfInt 100000) (OfInt 800000) (rnd env BaseVal i 0);
          factor = Add (Dec 10 1) (Mul (Rand (random01 (rnd env Factor i 0))) (Dec 1 1));
          current_val = Mul base_val factor in
      and_then (lift (choice (rnd env RollType i 0) [''Secured'', ''Unsecured''])) (\<lambda>roll_type.
      and_then (lift (choice (rnd env AssessRate i 0) tax_rate_ids)) (\<lambda>used_rate.
      and_then (execute env assessment_sql
                  [buid, VInt assessment_year, VInt base_year, VFloat base_val,
                   VFloat factor, VFloat current_val, VStr roll_type, used_rate]) (\<lambda>_.
      ret ()))))))"

definition assessments :: "env \<Rightarrow> val list \<Rightarrow> val list \<Rightarrow> unit run" where
  "assessments env tax_rate_ids baunit_ids =
     and_then (print ''Inserting TaxAssessments...'') (\<lambda>_.
     for_in baunit_ids (insert_assessment env tax_rate_ids) ())"

subsection \<open>6) Supplemental assessments\<close>

definition insert_supplemental :: "env \<Rightarrow> val list \<Rightarrow> nat \<times> val \<Rightarrow> unit \<Rightarrow> unit run" where
  "insert_supplemental env tax_rate_ids x u =
     (case x of (i, buid) \<Rightarrow>
      and_then (lift (choice (rnd env SuppReason i 0)
                  [''ChangeOfOwnership'', ''NewConstruction''])) (\<lambda>reason.
      let old_val = uniform (OfInt 100000) (OfInt 600000) (rnd env SuppOld i 0);
          new_val = Add old_val (uniform (OfInt 10000) (OfInt 60000) (rnd env SuppDelta i 0));
          diff_val = Sub new_val old_val in
      and_then (lift (choice (rnd env SuppRate i 0) tax_rate_ids)) (\<lambda>used_rate.
      let ev_date = fake_date env SuppDate i in
      and_then (execute env supplemental_sql
                  [buid, VDate ev_date, VStr reason, VFloat old_val, VFloat new_val,
                   VFloat diff_val, used_rate]) (\<lambda>_.
      ret ()))))"

definition supplementals :: "env \<Rightarrow> val list \<Rightarrow> val list \<Rightarrow> unit run" where
  "supplementals env tax_rate_ids baunit_ids =
     and_then (print ''Inserting SupplementalAssessments...'') (\<lambda>_.
     and_then (lift (sample (rnd env SuppSample 0) baunit_ids
                  (min (length baunit_ids div 5) 10))) (\<lambda>subset_for_supp.
     for_in subset_for_supp (insert_supplemental env tax_rate_ids) ()))"

subsection \<open>7) Ownership records\<close>

definition insert_rrr :: "env \<Rightarrow> val list \<Rightarrow> nat \<times> val \<Rightarrow> unit \<Rightarrow> unit run" where
  "insert_rrr env party_ids x u =
     (case x of (i, buid) \<Rightarrow>
      and_then (lift (choice (rnd env RrrParty i 0) party_ids)) (\<lambda>party_choice.
      let start_dt = fake_date env RrrDate i in
      and_then (execute env rrr_sql [VStr ''Ownership'', buid, party_choice, VDate start_dt]) (\<lambda>_.
      ret ())))"

definition ownerships :: "env \<Rightarrow> val list \<Rightarrow> val list \<Rightarrow> unit run" where
  "ownerships env party_ids baunit_ids =
     and_then (print ''Inserting RRR (Ownership)...'') (\<lambda>_.
     for_in baunit_ids (insert_rrr env party_ids) ())"

subsection \<open>8) Tax bills\<close>

definition insert_bill ::
  "env \<Rightarrow> val list \<Rightarrow> val list \<Rightarrow> nat \<Rightarrow> val list option list \<Rightarrow> val list option list run"
where
  "insert_bill env party_ids baunit_ids i inserted_bills =
     and_then (lift (choice (rnd env BillUnit i 0) baunit_ids)) (\<lambda>buid.
     and_then (lift (choice (rnd env BillParty i 0) party_ids)) (\<lambda>pid.
     let bill_dt = fake_date env BillDate i in
     and_then (lift (date_add bill_dt 30)) (\<lambda>due_dt.
     let amt_due = uniform (OfInt 500) (OfInt 5000) (rnd env BillAmount i 0);
         is_paid = False in
     and_then (lift (choice (rnd env BillType i 0) [''Annual'', ''Supplemental''])) (\<lambda>bill_type.
     let supplemental_id = VNone in
     and_then (execute env bill_sql
                 [VDate bill_dt, buid, pid, VDate due_dt, VFloat amt_due, VBool is_paid,
                  VStr bill_type, supplemental_id]) (\<lambda>row.
     ret (inserted_bills @ [row]))))))"

definition tax_bills :: "env \<Rightarrow> val list \<Rightarrow> val list \<Rightarrow> int \<Rightarrow> val list option list run" where
  "tax_bills env party_ids baunit_ids num_bills =
     and_then (print ''Inserting TaxBills...'') (\<lambda>_.
     for_range num_bills (insert_bill env party_ids baunit_ids) [])"

subsection \<open>9) Tax payments and the paid flag\<close>

definition insert_payment :: "env \<Rightarrow> nat \<Rightarrow> val \<Rightarrow> val \<Rightarrow> nat \<Rightarrow> unit \<Rightarrow> unit run" where
  "insert_payment env j b_date b_uid l u =
     and_then (lift (fake_pay_date env j l b_date)) (\<lambda>pay_dt.
     let amt_paid = uniform (OfInt 50) (OfInt 1000) (rnd env PayAmount j l) in
     and_then (execute env payment_sql [VDate pay_dt, b_date, b_uid, VFloat amt_paid]) (\<lambda>_.
     ret ()))"

definition pay_bill :: "env \<Rightarrow> nat \<times> val list option \<Rightarrow> unit \<Rightarrow> unit run" where
  "pay_bill env x u =
     (case x of (j, bill) \<Rightarrow>
      and_then (lift (unpack2 bill)) (\<lambda>(b_date, b_uid).
      let how_many = randint 1 2 (rnd env PayCount j 0) in
      for_range how_many (insert_payment env j b_date b_uid) ()))"

definition payments :: "env \<Rightarrow> val list option list \<Rightarrow> unit run" where
  "payments env inserted_bills =
     and_then (print ''Inserting TaxPayments...'') (\<lambda>_.
     and_then (lift (sample (rnd env PaySample 0) inserted_bills
                  (length inserted_bills div 2))) (\<lambda>half_bills.
     for_in half_bills (pay_bill env) ()))"

definition mark_paid :: "env \<Rightarrow> nat \<times> val list option \<Rightarrow> unit \<Rightarrow> unit run" where
  "mark_paid env x u =
     (case x of (i, bill) \<Rightarrow>
      and_then (lift (unpack2 bill)) (\<lambda>(b_date, b_uid).
      if below_half (rnd env PaidCoin i 0) then
        and_then (execute env mark_paid_sql [b_date, b_uid]) (\<lambda>_. ret ())
      else ret ()))"

definition mark_bills_paid :: "env \<Rightarrow> val list option list \<Rightarrow> unit run" where
  "mark_bills_paid env inserted_bills = for_in inserted_bills (mark_paid env) ()"

subsection \<open>The procedure\<close>

text \<open>The statements of the \<^verbatim>\<open>try\<close> block before \<^verbatim>\<open>conn.commit()\<close>.\<close>

definition seed_body :: "script \<Rightarrow> env \<Rightarrow> int \<Rightarrow> int \<Rightarrow> int \<Rightarrow> unit run" where
  "seed_body sc env num_parties num_parcels num_bills =
     and_then (print ''=== Seeding Start ==='') (\<lambda>_.
     and_then (parties sc env num_parties) (\<lambda>party_ids.
     and_then (spatial_units sc env num_parcels) (\<lambda>spatial_ids.
     and_then (ba_units sc env spatial_ids) (\<lambda>baunit_ids.
     and_then (rate_areas_and_rates env baunit_ids) (\<lambda>tax_rate_ids.
     and_then (assessments env tax_rate_ids baunit_ids) (\<lambda>_.
     and_then (supplementals env tax_rate_ids baunit_ids) (\<lambda>_.
     and_then (ownerships env party_ids baunit_ids) (\<lambda>_.
     and_then (tax_bills env party_ids baunit_ids num_bills) (\<lambda>inserted_bills.
     and_then (payments env inserted_bills) (\<lambda>_.
     mark_bills_paid env inserted_bills))))))))))"

text \<open>\<^verbatim>\<open>conn.commit()\<close> and \<^verbatim>\<open>conn.rollback()\<close>: the driver raises, or the call takes place.\<close>

definition commit :: "env \<Rightarrow> unit run" where
  "commit env w =
     (case commit_reply env of
        Some e \<Rightarrow> (Inl e, w)
      | None \<Rightarrow> (Inr (), w\<lparr>calls := calls w @ [Commit]\<rparr>))"

definition rollback :: "env \<Rightarrow> unit run" where
  "rollback env w =
     (case rollback_reply env of
        Some e \<Rightarrow> (Inl e, w)
      | None \<Rightarrow> (Inr (), w\<lparr>calls := calls w @ [Rollback]\<rparr>))"

definition try_block :: "script \<Rightarrow> env \<Rightarrow> int \<Rightarrow> int \<Rightarrow> int \<Rightarrow> unit run" where
  "try_block sc env num_parties num_parcels num_bills =
     and_then (seed_body sc env num_parties num_parcels num_bills) (\<lambda>_.
     and_then (commit env) (\<lambda>_.
     print ''=== Seeding Completed Successfully! ===''))"

text \<open>The \<^verbatim>\<open>finally\<close> clause: \<^verbatim>\<open>cur.close()\<close>, \<^verbatim>\<open>conn.close()\<close>.\<close>

definition close_all :: "world \<Rightarrow> world" where
  "close_all w = w\<lparr>calls := calls w @ [CursorClose, ConnClose]\<rparr>"

definition fresh :: world where
  "fresh = \<lparr>calls = [], stdout = []\<rparr>"

text \<open>
  \<^verbatim>\<open>seed_data(num_parties, num_parcels, num_bills)\<close>. \<^verbatim>\<open>psycopg2.connect\<close> is called before
  the \<^verbatim>\<open>try\<close>: when it raises, nothing else happens. An exception \<open>e\<close> of the \<^verbatim>\<open>try\<close> block
  enters the handler, which calls \<^verbatim>\<open>conn.rollback()\<close>, prints and re-raises \<open>e\<close>; when the
  rollback raises \<open>e'\<close> instead, \<open>e'\<close> leaves the procedure (with \<open>e\<close> as its context).
\<close>

definition seed_data :: "script \<Rightarrow> env \<Rightarrow> int \<Rightarrow> int \<Rightarrow> int \<Rightarrow> outcome \<times> world" where
  "seed_data sc env num_parties num_parcels num_bills =
     (case connect_reply env of
        Some e \<Rightarrow> (Raised e, fresh)
      | None \<Rightarrow>
          (case try_block sc env num_parties num_parcels num_bills fresh of
             (Inr _, w) \<Rightarrow> (Returned, close_all w)
           | (Inl e, w) \<Rightarrow>
               (case and_then (rollback env) (\<lambda>_.
                       print ''Error during seeding. Rolled back transaction.'') w of
                  (Inr _, w') \<Rightarrow> (Raised e, close_all w')
                | (Inl e', w') \<Rightarrow> (RaisedInHandler e' e, close_all w'))))"

section \<open>The database behind the connection\<close>

text \<open>
  The connection runs with \<^verbatim>\<open>autocommit = False\<close>: the statements executed since the last
  commit or rollback are pending; a commit makes them durable, a rollback or closing the
  connection discards them.
\<close>

fun db_step :: "entry list \<times> entry list \<Rightarrow> call \<Rightarrow> entry list \<times> entry list" where
  "db_step (pending, durable) (Execute e) = (pending @ [e], durable)"
| "db_step (pending, durable) Commit = ([], durable @ pending)"
| "db_step (pending, durable) Rollback = ([], durable)"
| "db_step (pending, durable) CursorClose = (pending, durable)"
| "db_step (pending, durable) ConnClose = ([], durable)"

definition committed :: "call list \<Rightarrow> entry list" where
  "committed cs = snd (foldl db_step ([], []) cs)"

fun inserts_into :: "tbl \<Rightarrow> entry \<Rightarrow> bool" where
  "inserts_into t e = (case query e of Insert t' _ _ \<Rightarrow> t' = t | Update _ _ _ \<Rightarrow> False)"

fun updates :: "tbl \<Rightarrow> entry \<Rightarrow> bool" where
  "updates t e = (case query e of Update t' _ _ \<Rightarrow> t' = t | Insert _ _ _ \<Rightarrow> False)"

text \<open>The rows of a table that the run has left in the database: one for each committed
  single-row \<^verbatim>\<open>INSERT\<close>.\<close>

definition rows :: "tbl \<Rightarrow> world \<Rightarrow> entry list" where
  "rows t w = filter (inserts_into t) (committed (calls w))"

text \<open>The columns that take their value from the parameter tuple, in the order of the
  placeholders, and the value bound to a column.\<close>

fun bound_columns :: "stmt \<Rightarrow> string list" where
  "bound_columns (Insert t cols returning) = map fst (filter (\<lambda>c. snd c = Param) cols)"
| "bound_columns (Update t sets wheres) = map fst (filter (\<lambda>c. snd c = Param) sets) @ wheres"

definition bound :: "entry \<Rightarrow> string \<Rightarrow> val option" where
  "bound e c = map_of (zip (bound_columns (query e)) (args e)) c"

section \<open>Properties of the executed statements\<close>

text \<open>A run of a procedure adds statements to the calls of the connection and lines to
  the output, whether it returns or raises; \<open>traces P Q m\<close> says that every statement \<open>m\<close>
  executes satisfies \<open>P\<close> and every line it prints satisfies \<open>Q\<close>.\<close>

definition traces :: "(entry \<Rightarrow> bool) \<Rightarrow> (string \<Rightarrow> bool) \<Rightarrow> 'a run \<Rightarrow> bool" where
  "traces P Q m \<longleftrightarrow>
     (\<forall>w r w'. m w = (r, w') \<longrightarrow>
        (\<exists>es ls. calls w' = calls w @ map Execute es \<and> stdout w' = stdout w @ ls
           \<and> list_all P es \<and> list_all Q ls))"

text \<open>The text that \<^verbatim>\<open>random_point_in_bbox\<close> builds: a call of the spatial functions with
  two numbers in it.\<close>

fun is_point_text :: "slot \<Rightarrow> bool" where
  "is_point_text (Interp [Txt a, Num lng, Txt b, Num lat, Txt c]) =
     (a = ''ST_SetSRID(ST_MakePoint('' \<and> b = '', '' \<and> c = ''), 4326)'')"
| "is_point_text _ = False"

text \<open>In an \<^verbatim>\<open>INSERT\<close>, the geometry of a spatial unit is text inside the query and every
  other column is a placeholder; the parameter tuple has one value for each placeholder.\<close>

definition geometry_only_inline :: "entry \<Rightarrow> bool" where
  "geometry_only_inline e =
     (case query e of
        Insert t cols returning \<Rightarrow>
          list_all (\<lambda>(c, s). if t = LA_SpatialUnit \<and> c = ''geometry'' then is_point_text s
                              else s = Param) cols
          \<and> (t = LA_SpatialUnit \<longrightarrow> ''geometry'' \<in> set (map fst cols)
                \<and> ''geometry'' \<notin> set (bound_columns (query e)))
          \<and> length (args e) = length (bound_columns (query e))
      | Update t sets wheres \<Rightarrow> True)"

text \<open>A bill is inserted as unpaid, due thirty days after its date, and with no
  supplemental assessment.\<close>

definition bill_as_inserted :: "entry \<Rightarrow> bool" where
  "bill_as_inserted e =
     (inserts_into TaxBill e \<longrightarrow>
        (case bound e ''bill_date'' of
           Some (VDate d) \<Rightarrow> bound e ''due_date'' = Some (VDate (d + 30))
         | _ \<Rightarrow> False)
        \<and> bound e ''is_paid'' = Some (VBool False)
        \<and> bound e ''supplemental_id'' = Some VNone)"

section \<open>The statements of a run that returns\<close>

text \<open>The value a script takes from the row of a statement with \<^verbatim>\<open>cur.fetchone()[0]\<close>, and
  whether the row has one.\<close>

definition fetched :: "entry \<Rightarrow> val" where
  "fetched e = (case result e of Some (v # _) \<Rightarrow> v | _ \<Rightarrow> VNone)"

definition keyed :: "entry \<Rightarrow> bool" where
  "keyed e = (case result e of Some (v # _) \<Rightarrow> True | _ \<Rightarrow> False)"

text \<open>What each phase executes for one element of its loop, in terms of the identifiers
  captured before.\<close>

definition party_row :: "entry \<Rightarrow> bool" where
  "party_row e \<longleftrightarrow> query e = party_sql \<and> length (args e) = 3 \<and> keyed e"

definition spatial_row :: "entry \<Rightarrow> bool" where
  "spatial_row e \<longleftrightarrow> (\<exists>g. query e = spatial_sql g) \<and> length (args e) = 3 \<and> keyed e"

definition baunit_row :: "val \<Rightarrow> entry \<Rightarrow> bool" where
  "baunit_row sid e \<longleftrightarrow>
     (query e = baunit_sql \<and> (\<exists>a c. args e = [a, sid, c, VNone])
      \<or> query e = baunit_rc_sql \<and> (\<exists>a c d. args e = [a, sid, c, VStr d]))
     \<and> keyed e"

definition tra_row :: "entry \<Rightarrow> bool" where
  "tra_row e \<longleftrightarrow> query e = tra_sql \<and> length (args e) = 2 \<and> keyed e"

definition rate_row :: "entry \<Rightarrow> bool" where
  "rate_row e \<longleftrightarrow> query e = tax_rate_sql \<and> length (args e) = 4 \<and> keyed e"

definition assign_row :: "val list \<Rightarrow> val \<Rightarrow> entry \<Rightarrow> bool" where
  "assign_row tra_ids buid e \<longleftrightarrow>
     query e = assign_tra_sql \<and> (\<exists>t. args e = [t, buid] \<and> t \<in> set tra_ids)"

definition assessment_row :: "val list \<Rightarrow> val \<Rightarrow> entry \<Rightarrow> bool" where
  "assessment_row rate_ids buid e \<longleftrightarrow>
     query e = assessment_sql
     \<and> (\<exists>a b c d f g r. args e = [buid, a, b, c, d, f, g, r] \<and> r \<in> set rate_ids)"

definition supplemental_row :: "val list \<Rightarrow> val \<Rightarrow> entry \<Rightarrow> bool" where
  "supplemental_row rate_ids buid e \<longleftrightarrow>
     query e = supplemental_sql
     \<and> (\<exists>a b c d f r. args e = [buid, a, b, c, d, f, r] \<and> r \<in> set rate_ids)"

definition rrr_row :: "val list \<Rightarrow> val \<Rightarrow> entry \<Rightarrow> bool" where
  "rrr_row party_ids buid e \<longleftrightarrow>
     query e = rrr_sql \<and> (\<exists>a p d. args e = [a, buid, p, d] \<and> p \<in> set party_ids)"

definition bill_row :: "val list \<Rightarrow> val list \<Rightarrow> entry \<Rightarrow> bool" where
  "bill_row party_ids baunit_ids e \<longleftrightarrow>
     query e = bill_sql
     \<and> (\<exists>d b p a t. args e = [VDate d, b, p, VDate (d + 30), a, VBool False, t, VNone]
           \<and> b \<in> set baunit_ids \<and> p \<in> set party_ids)"

definition payment_rows :: "val list option \<Rightarrow> entry list \<Rightarrow> bool" where
  "payment_rows bill es \<longleftrightarrow>
     (\<exists>d u. bill = Some [d, u] \<and> (length es = 1 \<or> length es = 2)
        \<and> list_all (\<lambda>e. query e = payment_sql \<and> (\<exists>p a. args e = [p, d, u, a])) es)"

definition paid_rows :: "env \<Rightarrow> nat \<times> val list option \<Rightarrow> entry list \<Rightarrow> bool" where
  "paid_rows env x es \<longleftrightarrow>
     (\<exists>d u. snd x = Some [d, u]
        \<and> (if below_half (rnd env PaidCoin (fst x) 0)
            then \<exists>e. es = [e] \<and> query e = mark_paid_sql \<and> args e = [d, u]
            else es = []))"

text \<open>The bill that a payment, or an update of the paid flag, names by its key
  \<open>(bill_date, bill_uid)\<close>; the keys that the committed updates have set to paid; the
  bills that have at least one payment row.\<close>

definition billed :: "entry \<Rightarrow> val list option" where
  "billed e =
     (case (bound e ''bill_date'', bound e ''bill_uid'') of
        (Some d, Some u) \<Rightarrow> Some [d, u]
      | _ \<Rightarrow> None)"

definition paid_keys :: "world \<Rightarrow> val list option list" where
  "paid_keys w = map billed (filter (updates TaxBill) (committed (calls w)))"

definition bills_with_payments :: "world \<Rightarrow> entry list" where
  "bills_with_payments w =
     filter (\<lambda>b. list_ex (\<lambda>e. billed e = result b) (rows TaxPayment w)) (rows TaxBill w)"

section \<open>Identifiers and references\<close>

text \<open>The identifier that a statement asks back from the database: the table and the
  columns of its \<^verbatim>\<open>RETURNING\<close> clause.\<close>

definition returning_of :: "stmt \<Rightarrow> (tbl \<times> string list) list" where
  "returning_of q =
     (case q of
        Insert t cols returning \<Rightarrow> if returning = [] then [] else [(t, returning)]
      | Update t sets wheres \<Rightarrow> [])"

text \<open>The identifiers that the statements of the two scripts ask back: \<open>party_id\<close>,
  \<open>spatial_unit_id\<close>, \<open>ba_unit_id\<close>, \<open>tra_id\<close>, \<open>tax_rate_id\<close> and the pair
  \<open>(bill_date, bill_uid)\<close>, each with the table whose rows it names.\<close>

definition identifiers :: "(tbl \<times> string list) list" where
  "identifiers = remdups (concat (map returning_of
     [party_sql, spatial_sql [], baunit_sql, baunit_rc_sql, tra_sql, tax_rate_sql,
      assign_tra_sql, assessment_sql, supplemental_sql, rrr_sql, bill_sql, payment_sql,
      mark_paid_sql]))"

text \<open>The identifier that a statement has created: the values that its row has for the
  columns of the \<^verbatim>\<open>RETURNING\<close> clause.\<close>

definition creates :: "entry \<Rightarrow> (tbl \<times> val list) list" where
  "creates e =
     (case result e of
        None \<Rightarrow> []
      | Some row \<Rightarrow> map (\<lambda>(t, cs). (t, take (length cs) row)) (returning_of (query e)))"

text \<open>The identifiers that a statement uses: for each identifier of which the statement
  binds every column, the values bound. A value \<^verbatim>\<open>None\<close> is the SQL \<^verbatim>\<open>NULL\<close> and names no
  row.\<close>

definition references :: "entry \<Rightarrow> (tbl \<times> val list) list" where
  "references e =
     concat (map (\<lambda>(t, cs).
        case those (map (bound e) cs) of
          None \<Rightarrow> []
        | Some vs \<Rightarrow> if VNone \<in> set vs then [] else [(t, vs)]) identifiers)"

text \<open>Every statement of the list uses only identifiers that are known, or that an
  earlier statement of the list has created.\<close>

fun no_dangling :: "(tbl \<times> val list) list \<Rightarrow> entry list \<Rightarrow> bool" where
  "no_dangling known [] = True"
| "no_dangling known (e # es) =
     (list_all (\<lambda>r. r \<in> set known) (references e) \<and> no_dangling (known @ creates e) es)"

section \<open>Sample environments\<close>

text \<open>A database that accepts every statement. For one party, five parcels and two bills it
  returns a key for each of the first seventeen statements (the parties, spatial units,
  administrative units, tax rate areas and tax rates) and a pair of date and identifier
  for the two bills, statements 33 and 34.\<close>

definition demo_reply :: "nat \<Rightarrow> reply" where
  "demo_reply n =
     (if n < 17 then Gives (Some [VInt (int n)])
      else if n = 33 \<or> n = 34 then Gives (Some [VDate 738000, VInt (int n)])
      else Gives None)"

definition demo_env :: env where
  "demo_env = \<lparr>rnd = (\<lambda>s i j. if s = PaidCoin then int i * 2 ^ 52 else int (i + j)),
     fake_name = (\<lambda>i. ''Ann Lee''),
     fake_address = (\<lambda>i. ''1 Main St'' @ [CHR 0x0A] @ ''Springfield''),
     fake_street_name = (\<lambda>i. ''Magnolia Avenue''),
     fake_date = (\<lambda>s i. 738000), fake_pay_date = (\<lambda>j l v. Inr 738100),
     connect_reply = None, execute_reply = demo_reply, commit_reply = None,
     rollback_reply = None\<rparr>"

text \<open>The same environment with other payments: another bill is sampled, it gets two
  payments instead of one, on another date. The draws of the paid flags are the same.\<close>

definition demo_env_other_payments :: env where
  "demo_env_other_payments = demo_env
     \<lparr>rnd := (\<lambda>s i j. if s = PaySample \<or> s = PayCount then 1 else rnd demo_env s i j),
      fake_pay_date := (\<lambda>j l v. Inr 738200)\<rparr>"



text \<open>The first bill of \<open>seed_data Seeder demo_env 1 5 2\<close> and its first spatial unit.\<close>

definition demo_bill :: entry where
  "demo_bill = \<lparr>query = bill_sql,
     args = [VDate 738000, VInt 6, VInt 0, VDate 738030,
             VFloat (uniform (OfInt 500) (OfInt 5000) 0), VBool False, VStr ''Annual'', VNone],
     result = Some [VDate 738000, VInt 33]\<rparr>"

definition demo_spatial_unit :: entry where
  "demo_spatial_unit = \<lparr>query = spatial_sql (random_point Seeder demo_env 0),
     args = [VStr ''1 Main St, Springfield'', VStr ''CAD-012345'',
             VFloat (uniform (Dec 2000 1) (Dec 200000 1) 0)],
     result = Some [VInt 1]\<rparr>"

section \<open>Basic facts about procedures\<close>

lemma ret_apply [simp]: "ret x w = (Inr x, w)"
  by (simp add: ret_def)

lemma lift_apply [simp]: "lift r w = (r, w)"
  by (simp add: lift_def)

lemma print_apply [simp]: "print l w = (Inr (), w\<lparr>stdout := stdout w @ [l]\<rparr>)"
  by (simp add: print_def)

lemma and_thenE:
  assumes "and_then m f w = (r, w'')"
  obtains (fail) e where "m w = (Inl e, w'')" and "r = Inl e"
    | (ok) a w' where "m w = (Inr a, w')" and "f a w' = (r, w'')"
  using assms by (auto simp: and_then_def split: prod.splits sum.splits)

lemma and_then_Inr:
  "and_then m f w = (Inr b, w'') \<longleftrightarrow> (\<exists>a w'. m w = (Inr a, w') \<and> f a w' = (Inr b, w''))"
  by (auto simp: and_then_def split: prod.splits sum.splits)

lemma executeE:
  assumes "execute env q ps w = (r, w')"
  obtains (raises) e where "execute_reply env (length (executed (calls w))) = Raises e"
      and "r = Inl e" and "w' = w"
    | (gives) row where "execute_reply env (length (executed (calls w))) = Gives row"
      and "r = Inr row"
      and "w' = w\<lparr>calls := calls w @ [Execute \<lparr>query = q, args = ps, result = row\<rparr>]\<rparr>"
  using assms by (auto simp: execute_def split: reply.splits)

named_theorems traces_intros

lemma traces_ret [traces_intros]: "traces P Q (ret x)"
  by (auto simp: traces_def intro: exI[of _ "[]"])

lemma traces_lift [traces_intros]: "traces P Q (lift r)"
  by (auto simp: traces_def intro: exI[of _ "[]"])

lemma traces_print [traces_intros]: "Q l \<Longrightarrow> traces P Q (print l)"
  unfolding traces_def
proof (intro allI impI)
  fix w r w'
  assume q: "Q l" and "print l w = (r, w')"
  then have "calls w' = calls w @ map Execute [] \<and> stdout w' = stdout w @ [l]
      \<and> list_all P [] \<and> list_all Q [l]" by auto
  then show "\<exists>es ls. calls w' = calls w @ map Execute es \<and> stdout w' = stdout w @ ls
      \<and> list_all P es \<and> list_all Q ls" by blast
qed

lemma traces_execute [traces_intros]:
  assumes "\<And>row. P \<lparr>query = q, args = ps, result = row\<rparr>"
  shows "traces P Q (execute env q ps)"
  unfolding traces_def
proof (intro allI impI)
  fix w r w'
  assume "execute env q ps w = (r, w')"
  then show "\<exists>es ls. calls w' = calls w @ map Execute es \<and> stdout w' = stdout w @ ls
      \<and> list_all P es \<and> list_all Q ls"
  proof (cases rule: executeE)
    case (raises e)
    then have "calls w' = calls w @ map Execute [] \<and> stdout w' = stdout w @ []
      \<and> list_all P [] \<and> list_all Q []" by simp
    then show ?thesis by blast
  next
    case (gives row)
    then have "calls w' = calls w @ map Execute [\<lparr>query = q, args = ps, result = row\<rparr>]
      \<and> stdout w' = stdout w @ []
      \<and> list_all P [\<lparr>query = q, args = ps, result = row\<rparr>] \<and> list_all Q []"
      using assms by simp
    then show ?thesis by blast
  qed
qed

lemma traces_and_then [traces_intros]:
  assumes m: "traces P Q m" and f: "\<And>a w w'. m w = (Inr a, w') \<Longrightarrow> traces P Q (f a)"
  shows "traces P Q (and_then m f)"
  unfolding traces_def
proof (intro allI impI)
  fix w r w''
  assume "and_then m f w = (r, w'')"
  then show "\<exists>es ls. calls w'' = calls w @ map Execute es \<and> stdout w'' = stdout w @ ls
      \<and> list_all P es \<and> list_all Q ls"
  proof (cases rule: and_thenE)
    case (fail e)
    with m show ?thesis unfolding traces_def by blast
  next
    case (ok a w')
    from m ok(1) obtain es ls where 1: "calls w' = calls w @ map Execute es"
      "stdout w' = stdout w @ ls" "list_all P es" "list_all Q ls"
      unfolding traces_def by blast
    from f[OF ok(1)] ok(2) obtain es' ls' where 2: "calls w'' = calls w' @ map Execute es'"
      "stdout w'' = stdout w' @ ls'" "list_all P es'" "list_all Q ls'"
      unfolding traces_def by blast
    from 1 2 have "calls w'' = calls w @ map Execute (es @ es') \<and> stdout w'' = stdout w @ (ls @ ls')
      \<and> list_all P (es @ es') \<and> list_all Q (ls @ ls')" by simp
    then show ?thesis by blast
  qed
qed

lemma traces_for_each [traces_intros]:
  assumes "\<And>x acc. traces P Q (body x acc)"
  shows "traces P Q (for_each body xs acc)"
  by (induction xs arbitrary: acc) (auto intro!: traces_intros assms)

lemma traces_for_range [traces_intros]:
  assumes "\<And>x acc. traces P Q (body x acc)"
  shows "traces P Q (for_range n body acc)"
  unfolding for_range_def by (rule traces_for_each) (rule assms)

lemma traces_for_in [traces_intros]:
  assumes "\<And>x acc. traces P Q (body x acc)"
  shows "traces P Q (for_in xs body acc)"
  unfolding for_in_def by (rule traces_for_each) (rule assms)

lemma traces_case_prod [traces_intros]:
  assumes "\<And>a b. traces P Q (f a b)"
  shows "traces P Q (case x of (a, b) \<Rightarrow> f a b)"
  using assms by (cases x) simp

lemma traces_if [traces_intros]:
  assumes "c \<Longrightarrow> traces P Q m" and "\<not> c \<Longrightarrow> traces P Q m'"
  shows "traces P Q (if c then m else m')"
  using assms by simp

lemma traces_case_script [traces_intros]:
  assumes "sc = Seeder \<Longrightarrow> traces P Q m" and "sc = SeederRC \<Longrightarrow> traces P Q m'"
  shows "traces P Q (case sc of Seeder \<Rightarrow> m | SeederRC \<Rightarrow> m')"
  using assms by (cases sc) simp_all

lemmas phase_defs =
  parties_def insert_party_def party_name_and_type_def generate_riverside_party_def
  spatial_units_def insert_spatial_unit_def make_address_def generate_riverside_address_def
  ba_units_def insert_baunit_def
  rate_areas_and_rates_def insert_tra_def insert_tax_rate_def assign_tra_def
  assessments_def insert_assessment_def
  supplementals_def insert_supplemental_def
  ownerships_def insert_rrr_def
  tax_bills_def insert_bill_def
  payments_def pay_bill_def insert_payment_def
  mark_bills_paid_def mark_paid_def

lemmas sql_defs =
  party_sql_def spatial_sql_def baunit_sql_def baunit_rc_sql_def tra_sql_def tax_rate_sql_def
  assign_tra_sql_def assessment_sql_def supplemental_sql_def rrr_sql_def bill_sql_def
  payment_sql_def mark_paid_sql_def

lemma seed_body_geometry: "traces geometry_only_inline (\<lambda>_. True) (seed_body sc env n m k)"
  unfolding seed_body_def phase_defs Let_def
  by (intro traces_intros)
     (simp_all add: geometry_only_inline_def sql_defs random_point_def
        split: prod.splits)

lemma seed_body_bills: "traces bill_as_inserted (\<lambda>_. True) (seed_body sc env n m k)"
  unfolding seed_body_def phase_defs Let_def
  by (intro traces_intros)
     (auto simp: bill_as_inserted_def sql_defs bound_def date_add_def split: if_splits)

lemma for_each_success:
  assumes run: "for_each body xs acc w = (Inr a, w')"
    and step: "\<And>x b v b' v'. x \<in> set xs \<Longrightarrow> body x b v = (Inr b', v') \<Longrightarrow>
      \<exists>es. calls v' = calls v @ map Execute es \<and> stdout v' = stdout v \<and> G x es \<and> b' = h x b es"
  shows "\<exists>ess. calls w' = calls w @ map Execute (concat ess) \<and> stdout w' = stdout w
      \<and> list_all2 G xs ess \<and> a = foldl (\<lambda>b (x, es). h x b es) acc (zip xs ess)"
  using run step
proof (induction xs arbitrary: acc w)
  case Nil
  then have "calls w' = calls w @ map Execute (concat []) \<and> stdout w' = stdout w
      \<and> list_all2 G [] [] \<and> a = foldl (\<lambda>b (x, es). h x b es) acc (zip [] [])" by simp
  then show ?case by blast
next
  case (Cons x xs)
  from Cons.prems(1) obtain b v where 1: "body x acc w = (Inr b, v)"
    and 2: "for_each body xs b v = (Inr a, w')"
    by (auto simp: and_then_Inr)
  from Cons.prems(2)[OF _ 1] obtain es where 3: "calls v = calls w @ map Execute es"
    "stdout v = stdout w" "G x es" "b = h x acc es" by auto
  from Cons.IH[OF 2] Cons.prems(2) obtain ess where 4:
    "calls w' = calls v @ map Execute (concat ess)" "stdout w' = stdout v"
    "list_all2 G xs ess" "a = foldl (\<lambda>b (x, es). h x b es) b (zip xs ess)"
    by (meson list.set_intros(2))
  from 3 4 have "calls w' = calls w @ map Execute (concat (es # ess)) \<and> stdout w' = stdout w
      \<and> list_all2 G (x # xs) (es # ess)
      \<and> a = foldl (\<lambda>b (x, es). h x b es) acc (zip (x # xs) (es # ess))" by simp
  then show ?case by blast
qed

lemma date_add_Inr: "date_add d n = Inr d' \<Longrightarrow> d' = d + n"
  by (simp add: date_add_def split: if_splits)

lemma executed_map_Execute [simp]: "executed (map Execute es) = es"
  by (induction es) auto

lemma executed_append [simp]: "executed (cs @ ds) = executed cs @ executed ds"
  by (induction cs rule: executed.induct) auto


lemma seed_data_cases:
  obtains
    (no_connection) e where "connect_reply env = Some e"
      and "seed_data sc env n m k = (Raised e, fresh)"
  | (returned) wb where "connect_reply env = None"
      and "seed_body sc env n m k fresh = (Inr (), wb)" and "commit_reply env = None"
      and "seed_data sc env n m k =
        (Returned, \<lparr>calls = calls wb @ [Commit, CursorClose, ConnClose],
                    stdout = stdout wb @ [''=== Seeding Completed Successfully! ==='']\<rparr>)"
  | (rolled_back) e wb where "connect_reply env = None"
      and "seed_body sc env n m k fresh = (Inl e, wb)
           \<or> seed_body sc env n m k fresh = (Inr (), wb) \<and> commit_reply env = Some e"
      and "rollback_reply env = None"
      and "seed_data sc env n m k =
        (Raised e, \<lparr>calls = calls wb @ [Rollback, CursorClose, ConnClose],
                    stdout = stdout wb @ [''Error during seeding. Rolled back transaction.'']\<rparr>)"
  | (rollback_raised) e e' wb where "connect_reply env = None"
      and "seed_body sc env n m k fresh = (Inl e, wb)
           \<or> seed_body sc env n m k fresh = (Inr (), wb) \<and> commit_reply env = Some e"
      and "rollback_reply env = Some e'"
      and "seed_data sc env n m k =
        (RaisedInHandler e' e, \<lparr>calls = calls wb @ [CursorClose, ConnClose],
                                stdout = stdout wb\<rparr>)"
proof (cases "connect_reply env")
  case (Some e)
  then have "seed_data sc env n m k = (Raised e, fresh)" by (simp add: seed_data_def)
  with Some show ?thesis by (rule no_connection)
next
  case None
  obtain r wb where b: "seed_body sc env n m k fresh = (r, wb)" by (cases "seed_body sc env n m k fresh")
  show ?thesis
  proof (cases r)
    case (Inr u)
    show ?thesis
    proof (cases "commit_reply env")
      case c: None
      show ?thesis using None b Inr c
        by (intro returned[of wb])
           (auto simp: seed_data_def try_block_def and_then_def commit_def close_all_def )
    next
      case c: (Some e)
      show ?thesis
      proof (cases "rollback_reply env")
        case rb: None
        show ?thesis using None b Inr c rb
          by (intro rolled_back[of e wb])
             (auto simp: seed_data_def try_block_def and_then_def commit_def rollback_def
                close_all_def )
      next
        case rb: (Some e')
        show ?thesis using None b Inr c rb
          by (intro rollback_raised[of e wb e'])
             (auto simp: seed_data_def try_block_def and_then_def commit_def rollback_def
                close_all_def)
      qed
    qed
  next
    case (Inl e)
    show ?thesis
    proof (cases "rollback_reply env")
      case rb: None
      show ?thesis using None b Inl rb
        by (intro rolled_back[of e wb])
           (auto simp: seed_data_def try_block_def and_then_def commit_def rollback_def
              close_all_def )
    next
      case rb: (Some e')
      show ?thesis using None b Inl rb
        by (intro rollback_raised[of e wb e'])
           (auto simp: seed_data_def try_block_def and_then_def commit_def rollback_def
              close_all_def)
    qed
  qed
qed

lemma seed_data_executed:
  "\<exists>r wb. seed_body sc env n m k fresh = (r, wb)
     \<and> (executed (calls (snd (seed_data sc env n m k))) = executed (calls wb)
        \<or> executed (calls (snd (seed_data sc env n m k))) = [])"
  by (cases rule: seed_data_cases[of env sc n m k]) (auto simp: fresh_def)

lemma seed_data_entries:
  assumes "traces P Q (seed_body sc env n m k)"
  shows "list_all P (executed (calls (snd (seed_data sc env n m k))))"
proof -
  from seed_data_executed[of sc env n m k] obtain r wb
    where b: "seed_body sc env n m k fresh = (r, wb)"
      and c: "executed (calls (snd (seed_data sc env n m k))) = executed (calls wb)
        \<or> executed (calls (snd (seed_data sc env n m k))) = []" by blast
  from assms b obtain es where "calls wb = calls fresh @ map Execute es" "list_all P es"
    unfolding traces_def by blast
  then have "list_all P (executed (calls wb))" by (simp add: fresh_def)
  with c show ?thesis by auto
qed

section \<open>Every statement of a run\<close>

text \<open>
  Claim C8. In both scripts and in every run, whatever its outcome: in each executed
  \<^verbatim>\<open>INSERT\<close> the only column whose value is not a placeholder is the geometry of a spatial
  unit, which is the text of a spatial-function call put into the query string by the
  f-string; the geometry is not among the columns bound from the parameter tuple, and the
  tuple has exactly one value for each placeholder.
\<close>

theorem geometry_interpolated_rest_bound:
  assumes "e \<in> set (executed (calls (snd (seed_data sc env num_parties num_parcels num_bills))))"
    and "query e = Insert t cols returning"
  shows "(\<forall>(c, s) \<in> set cols.
            if t = LA_SpatialUnit \<and> c = ''geometry''
            then \<exists>lng lat. s = Interp [Txt ''ST_SetSRID(ST_MakePoint('', Num lng, Txt '', '',
                                         Num lat, Txt ''), 4326)'']
            else s = Param)
       \<and> (t = LA_SpatialUnit \<longrightarrow>
            ''geometry'' \<in> fst ` set cols \<and> ''geometry'' \<notin> set (bound_columns (query e)))
       \<and> length (args e) = length (bound_columns (query e))"
proof -
  have "list_all geometry_only_inline
          (executed (calls (snd (seed_data sc env num_parties num_parcels num_bills))))"
    by (rule seed_data_entries) (rule seed_body_geometry)
  with assms(1) have "geometry_only_inline e" by (simp add: list_all_iff)
  with assms(2) have *: "list_all (\<lambda>(c, s). if t = LA_SpatialUnit \<and> c = ''geometry''
        then is_point_text s else s = Param) cols"
    and **: "t = LA_SpatialUnit \<longrightarrow>
        ''geometry'' \<in> fst ` set cols \<and> ''geometry'' \<notin> set (bound_columns (query e))"
    and ***: "length (args e) = length (bound_columns (query e))"
    by (simp_all add: geometry_only_inline_def)
  have "is_point_text s \<Longrightarrow> \<exists>lng lat. s = Interp [Txt ''ST_SetSRID(ST_MakePoint('', Num lng,
      Txt '', '', Num lat, Txt ''), 4326)'']" for s
    by (erule is_point_text.elims(2)) simp
  with * have "\<forall>(c, s) \<in> set cols.
            if t = LA_SpatialUnit \<and> c = ''geometry''
            then \<exists>lng lat. s = Interp [Txt ''ST_SetSRID(ST_MakePoint('', Num lng, Txt '', '',
                                         Num lat, Txt ''), 4326)'']
            else s = Param"
    by (auto simp: list_all_iff)
  with ** *** show ?thesis by blast
qed

theorem geometry_interpolated_rest_bound_witness:
  "demo_spatial_unit \<in> set (executed (calls (snd (seed_data Seeder demo_env 1 5 2))))
   \<and> query demo_spatial_unit = Insert LA_SpatialUnit
        [(''geometry'', Interp (random_point Seeder demo_env 0)), (''address'', Param),
         (''cadastral_ref'', Param), (''area_sq_m'', Param)] [''spatial_unit_id'']
   \<and> ''geometry'' \<notin> set (bound_columns (query demo_spatial_unit))
   \<and> length (args demo_spatial_unit) = length (bound_columns (query demo_spatial_unit))"
proof -
  have 1: "demo_spatial_unit \<in> set (executed (calls (snd (seed_data Seeder demo_env 1 5 2))))"
    by code_simp
  have 2: "query demo_spatial_unit = Insert LA_SpatialUnit
        [(''geometry'', Interp (random_point Seeder demo_env 0)), (''address'', Param),
         (''cadastral_ref'', Param), (''area_sq_m'', Param)] [''spatial_unit_id'']"
    by (simp add: demo_spatial_unit_def spatial_sql_def)
  from geometry_interpolated_rest_bound[OF 1 2] 1 2 show ?thesis by simp
qed

text \<open>
  Claim C10. In both scripts and in every run: each executed \<^verbatim>\<open>INSERT\<close> into TaxBill binds
  a due date that is the bill date plus thirty days, the value \<^verbatim>\<open>False\<close> for is_paid and
  \<^verbatim>\<open>None\<close> for supplemental_id.
\<close>

theorem bill_insert_fields:
  assumes "e \<in> set (executed (calls (snd (seed_data sc env num_parties num_parcels num_bills))))"
    and "inserts_into TaxBill e"
  shows "\<exists>d. bound e ''bill_date'' = Some (VDate d) \<and> bound e ''due_date'' = Some (VDate (d + 30))
           \<and> bound e ''is_paid'' = Some (VBool False)
           \<and> bound e ''supplemental_id'' = Some VNone"
proof -
  have "list_all bill_as_inserted
          (executed (calls (snd (seed_data sc env num_parties num_parcels num_bills))))"
    by (rule seed_data_entries) (rule seed_body_bills)
  with assms(1) have "bill_as_inserted e" by (simp add: list_all_iff)
  with assms(2) show ?thesis
    by (auto simp: bill_as_inserted_def split: option.splits val.splits)
qed

theorem bill_insert_fields_witness:
  "demo_bill \<in> set (executed (calls (snd (seed_data Seeder demo_env 1 5 2))))
   \<and> inserts_into TaxBill demo_bill
   \<and> (\<exists>d. bound demo_bill ''bill_date'' = Some (VDate d)
          \<and> bound demo_bill ''due_date'' = Some (VDate (d + 30))
          \<and> bound demo_bill ''is_paid'' = Some (VBool False)
          \<and> bound demo_bill ''supplemental_id'' = Some VNone)"
proof -
  have 1: "demo_bill \<in> set (executed (calls (snd (seed_data Seeder demo_env 1 5 2))))"
    by code_simp
  have 2: "inserts_into TaxBill demo_bill"
    by code_simp
  from bill_insert_fields[OF 1 2] 1 2 show ?thesis by blast
qed

section \<open>One iteration of each loop\<close>

lemma execute_Inr:
  "execute env q ps w = (Inr row, w') \<longleftrightarrow>
     execute_reply env (length (executed (calls w))) = Gives row
     \<and> w' = w\<lparr>calls := calls w @ [Execute \<lparr>query = q, args = ps, result = row\<rparr>]\<rparr>"
  by (auto simp: execute_def split: reply.splits)

lemma first_col_Inr: "first_col row = Inr v \<longleftrightarrow> (\<exists>rest. row = Some (v # rest))"
  by (auto simp: first_col_def split: option.splits list.splits)

lemma unpack2_Inr: "unpack2 row = Inr (d, u) \<longleftrightarrow> row = Some [d, u]"
  by (auto simp: unpack2_def split: option.splits list.splits)

lemma draw_in_range: "xs \<noteq> [] \<Longrightarrow> nat (r mod int (length xs)) < length xs"
  by (simp add: nat_less_iff)

lemma choice_Inr: "choice r xs = Inr x \<Longrightarrow> x \<in> set xs"
  by (auto simp: choice_def draw_in_range split: if_splits)

lemmas run_simps = and_then_Inr execute_Inr first_col_Inr unpack2_Inr Let_def

lemma party_name_and_type_pure:
  "party_name_and_type sc env i v = (r, w') \<Longrightarrow> w' = v"
  by (cases sc)
     (auto simp: party_name_and_type_def generate_riverside_party_def and_then_def
        split: sum.splits if_splits)

lemma make_address_pure:
  "make_address sc env i v = (r, w') \<Longrightarrow> w' = v"
  by (cases sc)
     (auto simp: make_address_def generate_riverside_address_def and_then_def Let_def
        split: sum.splits if_splits)

lemma insert_party_step:
  assumes "insert_party sc env i ids v = (Inr ids', v')"
  shows "\<exists>e. calls v' = calls v @ [Execute e] \<and> party_row e
           \<and> ids' = ids @ [fetched e]"
  using assms
  by (auto simp: insert_party_def run_simps party_row_def keyed_def fetched_def
      dest!: party_name_and_type_pure)

lemma insert_spatial_unit_step:
  assumes "insert_spatial_unit sc env i ids v = (Inr ids', v')"
  shows "\<exists>e. calls v' = calls v @ [Execute e] \<and> spatial_row e
           \<and> ids' = ids @ [fetched e]"
  using assms
  by (auto simp: insert_spatial_unit_def run_simps spatial_row_def keyed_def fetched_def
      dest!: make_address_pure)

lemma insert_baunit_step:
  assumes "insert_baunit sc env (i, sid) ids v = (Inr ids', v')"
  shows "\<exists>e. calls v' = calls v @ [Execute e] \<and> baunit_row sid e
           \<and> ids' = ids @ [fetched e]"
  using assms
  by (cases sc) (auto simp: insert_baunit_def run_simps baunit_row_def keyed_def fetched_def)

lemma insert_tra_step:
  assumes "insert_tra env (i, code, desc) m v = (Inr m', v')"
  shows "\<exists>e. calls v' = calls v @ [Execute e] \<and> tra_row e
           \<and> m' = dict_set m code (fetched e)"
  using assms
  by (auto simp: insert_tra_def run_simps tra_row_def keyed_def fetched_def)

lemma insert_tax_rate_step:
  assumes "insert_tax_rate env x ids v = (Inr ids', v')"
  shows "\<exists>e. calls v' = calls v @ [Execute e] \<and> rate_row e
           \<and> ids' = ids @ [fetched e]"
  using assms
  by (auto simp: insert_tax_rate_def run_simps rate_row_def keyed_def fetched_def
      split: prod.splits)

lemma assign_tra_step:
  assumes "assign_tra env m (i, buid) u v = (Inr u', v')"
  shows "\<exists>e. calls v' = calls v @ [Execute e]
           \<and> assign_row (dict_values m) buid e"
  using assms
  by (auto simp: assign_tra_def run_simps assign_row_def dest: choice_Inr)

lemma insert_assessment_step:
  assumes "insert_assessment env rate_ids (i, buid) u v = (Inr u', v')"
  shows "\<exists>e. calls v' = calls v @ [Execute e]
           \<and> assessment_row rate_ids buid e"
  using assms
  by (auto simp: insert_assessment_def run_simps assessment_row_def dest: choice_Inr)

lemma insert_supplemental_step:
  assumes "insert_supplemental env rate_ids (i, buid) u v = (Inr u', v')"
  shows "\<exists>e. calls v' = calls v @ [Execute e]
           \<and> supplemental_row rate_ids buid e"
  using assms
  by (auto simp: insert_supplemental_def run_simps supplemental_row_def dest: choice_Inr)

lemma insert_rrr_step:
  assumes "insert_rrr env party_ids (i, buid) u v = (Inr u', v')"
  shows "\<exists>e. calls v' = calls v @ [Execute e]
           \<and> rrr_row party_ids buid e"
  using assms
  by (auto simp: insert_rrr_def run_simps rrr_row_def dest: choice_Inr)

lemma insert_bill_step:
  assumes "insert_bill env party_ids baunit_ids i bills v = (Inr bills', v')"
  shows "\<exists>e. calls v' = calls v @ [Execute e]
           \<and> bill_row party_ids baunit_ids e \<and> bills' = bills @ [result e]"
  using assms
  by (auto simp: insert_bill_def run_simps bill_row_def date_add_def
      dest: choice_Inr split: if_splits)

lemma pay_bill_step:
  assumes "pay_bill env (j, bill) u v = (Inr u', v')"
  shows "\<exists>es. calls v' = calls v @ map Execute es \<and> payment_rows bill es"
proof -
  from assms obtain d b where bill: "bill = Some [d, b]"
    and loop: "for_range (randint 1 2 (rnd env PayCount j 0)) (insert_payment env j d b) () v
                 = (Inr u', v')"
    by (auto simp: pay_bill_def run_simps)
  have one: "\<exists>e. calls y = calls x @ [Execute e] \<and> query e = payment_sql
      \<and> (\<exists>p a. args e = [p, d, b, a])"
    if "insert_payment env j d b l () x = (Inr (), y)" for l x y
    using that by (auto simp: insert_payment_def run_simps)
  have "rnd env PayCount j 0 mod 2 = 0 \<or> rnd env PayCount j 0 mod 2 = 1" by presburger
  then show ?thesis
  proof
    assume "rnd env PayCount j 0 mod 2 = 0"
    then have "nat (randint 1 2 (rnd env PayCount j 0)) = 1" by (simp add: randint_def)
    with loop have "insert_payment env j d b 0 () v = (Inr (), v')"
      by (auto simp: for_range_def run_simps)
    from one[OF this] obtain e where "calls v' = calls v @ map Execute [e]"
      "query e = payment_sql" "\<exists>p a. args e = [p, d, b, a]" by auto
    then have "calls v' = calls v @ map Execute [e] \<and> payment_rows bill [e]"
      using bill by (simp add: payment_rows_def)
    then show ?thesis by blast
  next
    assume "rnd env PayCount j 0 mod 2 = 1"
    then have "nat (randint 1 2 (rnd env PayCount j 0)) = 2" by (simp add: randint_def)
    then have "[0..<nat (randint 1 2 (rnd env PayCount j 0))] = [0, 1]"
      by (simp add: upt_rec)
    with loop obtain x where 1: "insert_payment env j d b 0 () v = (Inr (), x)"
      and 2: "insert_payment env j d b 1 () x = (Inr (), v')"
      by (auto simp: for_range_def run_simps)
    from one[OF 1] obtain e1 where e1: "calls x = calls v @ [Execute e1]"
      "query e1 = payment_sql" "\<exists>p a. args e1 = [p, d, b, a]" by auto
    from one[OF 2] obtain e2 where e2: "calls v' = calls x @ [Execute e2]"
      "query e2 = payment_sql" "\<exists>p a. args e2 = [p, d, b, a]" by auto
    from e1 e2 bill have "calls v' = calls v @ map Execute [e1, e2] \<and> payment_rows bill [e1, e2]"
      by (simp add: payment_rows_def)
    then show ?thesis by blast
  qed
qed

lemma mark_paid_step:
  assumes "mark_paid env x u v = (Inr u', v')"
  shows "\<exists>es. calls v' = calls v @ map Execute es \<and> paid_rows env x es"
proof (cases "below_half (rnd env PaidCoin (fst x) 0)")
  case True
  with assms obtain d b row where "snd x = Some [d, b]"
    "calls v' = calls v @ map Execute [\<lparr>query = mark_paid_sql, args = [d, b], result = row\<rparr>]"
    by (cases x) (auto simp: mark_paid_def run_simps)
  with True have "calls v' = calls v @ map Execute [\<lparr>query = mark_paid_sql, args = [d, b], result = row\<rparr>]
      \<and> paid_rows env x [\<lparr>query = mark_paid_sql, args = [d, b], result = row\<rparr>]"
    by (simp add: paid_rows_def)
  then show ?thesis by blast
next
  case False
  with assms obtain d b where "snd x = Some [d, b]" "calls v' = calls v @ map Execute []"
    by (cases x) (auto simp: mark_paid_def run_simps)
  with False have "calls v' = calls v @ map Execute [] \<and> paid_rows env x []"
    by (simp add: paid_rows_def)
  then show ?thesis by blast
qed

lemma for_each_groups:
  assumes run: "for_each body xs acc w = (Inr a, w')"
    and step: "\<And>x b v b' v'. x \<in> set xs \<Longrightarrow> body x b v = (Inr b', v') \<Longrightarrow>
      \<exists>es. calls v' = calls v @ map Execute es \<and> G x es"
  shows "\<exists>ess. calls w' = calls w @ map Execute (concat ess) \<and> list_all2 G xs ess"
  using run step
proof (induction xs arbitrary: acc w)
  case Nil
  then have "calls w' = calls w @ map Execute (concat []) \<and> list_all2 G [] []" by simp
  then show ?case by blast
next
  case (Cons x xs)
  from Cons.prems(1) obtain b v where 1: "body x acc w = (Inr b, v)"
    and 2: "for_each body xs b v = (Inr a, w')"
    by (auto simp: and_then_Inr)
  from Cons.prems(2)[OF _ 1] obtain es where 3: "calls v = calls w @ map Execute es" "G x es"
    by auto
  from Cons.IH[OF 2] Cons.prems(2) obtain ess where 4:
    "calls w' = calls v @ map Execute (concat ess)" "list_all2 G xs ess"
    by (meson list.set_intros(2))
  from 3 4 have "calls w' = calls w @ map Execute (concat (es # ess))
      \<and> list_all2 G (x # xs) (es # ess)" by simp
  then show ?case by blast
qed

lemma for_each_emit:
  assumes run: "for_each body xs acc w = (Inr a, w')"
    and step: "\<And>x b v b' v'. x \<in> set xs \<Longrightarrow> body x b v = (Inr b', v') \<Longrightarrow>
      \<exists>e. calls v' = calls v @ [Execute e] \<and> G x e"
  shows "\<exists>es. calls w' = calls w @ map Execute es \<and> list_all2 G xs es"
  using run step
proof (induction xs arbitrary: acc w)
  case Nil
  then have "calls w' = calls w @ map Execute [] \<and> list_all2 G [] []" by simp
  then show ?case by blast
next
  case (Cons x xs)
  from Cons.prems(1) obtain b v where 1: "body x acc w = (Inr b, v)"
    and 2: "for_each body xs b v = (Inr a, w')"
    by (auto simp: and_then_Inr)
  from Cons.prems(2)[OF _ 1] obtain e where 3: "calls v = calls w @ [Execute e]" "G x e"
    by auto
  from Cons.IH[OF 2] Cons.prems(2) obtain es where 4:
    "calls w' = calls v @ map Execute es" "list_all2 G xs es"
    by (meson list.set_intros(2))
  from 3 4 have "calls w' = calls w @ map Execute (e # es) \<and> list_all2 G (x # xs) (e # es)"
    by simp
  then show ?case by blast
qed

lemma for_each_collect:
  assumes run: "for_each body xs acc w = (Inr a, w')"
    and step: "\<And>x b v b' v'. x \<in> set xs \<Longrightarrow> body x b v = (Inr b', v') \<Longrightarrow>
      \<exists>e. calls v' = calls v @ [Execute e] \<and> G x e \<and> b' = b @ [f e]"
  shows "\<exists>es. calls w' = calls w @ map Execute es \<and> list_all2 G xs es \<and> a = acc @ map f es"
  using run step
proof (induction xs arbitrary: acc w)
  case Nil
  then have "calls w' = calls w @ map Execute [] \<and> list_all2 G [] [] \<and> a = acc @ map f []"
    by simp
  then show ?case by blast
next
  case (Cons x xs)
  from Cons.prems(1) obtain b v where 1: "body x acc w = (Inr b, v)"
    and 2: "for_each body xs b v = (Inr a, w')"
    by (auto simp: and_then_Inr)
  from Cons.prems(2)[OF _ 1] obtain e where 3: "calls v = calls w @ [Execute e]" "G x e"
    "b = acc @ [f e]" by auto
  from Cons.IH[OF 2] Cons.prems(2) obtain es where 4:
    "calls w' = calls v @ map Execute es" "list_all2 G xs es" "a = b @ map f es"
    by (meson list.set_intros(2))
  from 3 4 have "calls w' = calls w @ map Execute (e # es) \<and> list_all2 G (x # xs) (e # es)
      \<and> a = acc @ map f (e # es)"
    by simp
  then show ?case by blast
qed

lemma list_all2_const: "list_all2 (\<lambda>x. P) xs es \<longleftrightarrow> length es = length xs \<and> list_all P es"
  by (auto simp: list_all2_conv_all_nth list_all_length)

lemma nth_remove:
  assumes "i < length pool" and "p < length pool - 1"
  shows "(take i pool @ drop (Suc i) pool) ! p = pool ! (if p < i then p else Suc p)"
proof (cases "p < i")
  case True
  with assms show ?thesis by (simp add: nth_append)
next
  case False
  with assms have "(take i pool @ drop (Suc i) pool) ! p = drop (Suc i) pool ! (p - i)"
    by (simp add: nth_append min_def)
  also have "\<dots> = pool ! (Suc i + (p - i))"
    using assms False by (intro nth_drop) simp
  also have "Suc i + (p - i) = Suc p" using False by simp
  finally show ?thesis using False by simp
qed

lemma pick_positions:
  "k \<le> length pool \<Longrightarrow>
     \<exists>ps. length ps = k \<and> distinct ps \<and> set ps \<subseteq> {..<length pool}
        \<and> pick rs j k pool = map ((!) pool) ps"
proof (induction k arbitrary: j pool)
  case 0
  show ?case by (intro exI[of _ "[]"]) simp
next
  case (Suc k)
  define i where "i = nat (rs j mod int (length pool))"
  define rest where "rest = take i pool @ drop (Suc i) pool"
  define up where "up = (\<lambda>p. if p < i then p else Suc p)"
  from Suc.prems have "0 < length pool" by (cases pool) simp_all
  then have i: "i < length pool" unfolding i_def by (simp add: nat_less_iff)
  then have len: "length rest = length pool - 1" by (simp add: rest_def)
  with Suc.prems have "k \<le> length rest" by simp
  from Suc.IH[OF this, of "Suc j"] obtain ps where ps0: "length ps = k \<and> distinct ps
    \<and> set ps \<subseteq> {..<length rest} \<and> pick rs (Suc j) k rest = map ((!) rest) ps"
    by (rule exE)
  then have ps: "length ps = k" "distinct ps"
    "set ps \<subseteq> {..<length rest}" "pick rs (Suc j) k rest = map ((!) rest) ps" by simp_all
  have nth: "rest ! p = pool ! up p" if "p < length rest" for p
    unfolding rest_def up_def using that i len by (intro nth_remove) simp_all
  have "inj up" unfolding inj_def up_def by (auto split: if_splits)
  then have d: "distinct (map up ps)" using ps(2) by (simp add: distinct_map inj_on_subset[of up UNIV])
  have ni: "i \<notin> set (map up ps)" unfolding up_def by (auto split: if_splits)
  have "up p < length pool" if "p \<in> set ps" for p
  proof -
    from that ps(3) have "p < length pool - 1" using len by auto
    then show ?thesis unfolding up_def by auto
  qed
  then have rng: "set (map up ps) \<subseteq> {..<length pool}" by auto
  have "map ((!) rest) ps = map ((!) pool) (map up ps)"
  proof -
    have "rest ! p = pool ! up p" if "p \<in> set ps" for p
      using that ps(3) by (intro nth) auto
    then show ?thesis by simp
  qed
  moreover have "pick rs j (Suc k) pool = pool ! i # pick rs (Suc j) k rest"
    by (simp add: i_def rest_def Let_def)
  ultimately have "pick rs j (Suc k) pool = map ((!) pool) (i # map up ps)"
    using ps(4) by simp
  moreover have "length (i # map up ps) = Suc k" using ps(1) by simp
  moreover have "distinct (i # map up ps)" using d ni by simp
  moreover have "set (i # map up ps) \<subseteq> {..<length pool}" using rng i by simp
  ultimately show ?case by (intro exI[of _ "i # map up ps"]) simp
qed

lemma sample_positions:
  assumes "sample rs pool k = Inr xs"
  shows "\<exists>ps. length ps = k \<and> distinct ps \<and> set ps \<subseteq> {..<length pool}
           \<and> xs = map ((!) pool) ps"
proof -
  from assms have "k \<le> length pool" and "xs = pick rs 0 k pool"
    by (auto simp: sample_def split: if_splits)
  with pick_positions[of k pool rs 0] show ?thesis by auto
qed

lemma list_all2_enumerate:
  "list_all2 (\<lambda>p. P (snd p)) (enumerate n xs) es \<longleftrightarrow> list_all2 P xs es"
proof -
  have "list_all2 (\<lambda>p. P (snd p)) (enumerate n xs) es
      \<longleftrightarrow> list_all2 P (map snd (enumerate n xs)) es"
    by (rule list_all2_map1[symmetric])
  also have "map snd (enumerate n xs) = xs"
    by (simp add: enumerate_eq_zip)
  finally show ?thesis .
qed

section \<open>The phases of a run that returns\<close>

lemma print_then:
  "and_then (print l) f w = (r, w') \<longleftrightarrow> f () (w\<lparr>stdout := stdout w @ [l]\<rparr>) = (r, w')"
  by (simp add: and_then_def)

lemma parties_success:
  assumes "parties sc env n w = (Inr ids, w')"
  shows "\<exists>es. calls w' = calls w @ map Execute es \<and> length es = nat n
           \<and> list_all party_row es \<and> ids = map fetched es"
proof -
  from assms have "for_each (insert_party sc env) [0..<nat n] []
      (w\<lparr>stdout := stdout w @ [''Inserting Parties...'']\<rparr>) = (Inr ids, w')"
    by (simp add: parties_def for_range_def print_then)
  from for_each_collect[OF this, where G = "\<lambda>_. party_row" and f = fetched]
  obtain es where "calls w' = calls w @ map Execute es"
    "list_all2 (\<lambda>_. party_row) [0..<nat n] es" "ids = map fetched es"
    using insert_party_step by auto
  then show ?thesis by (auto simp: list_all2_const)
qed

lemma spatial_units_success:
  assumes "spatial_units sc env n w = (Inr ids, w')"
  shows "\<exists>es. calls w' = calls w @ map Execute es \<and> length es = nat n
           \<and> list_all spatial_row es \<and> ids = map fetched es"
proof -
  from assms have "for_each (insert_spatial_unit sc env) [0..<nat n] []
      (w\<lparr>stdout := stdout w @ [''Inserting SpatialUnits...'']\<rparr>) = (Inr ids, w')"
    by (simp add: spatial_units_def for_range_def print_then)
  from for_each_collect[OF this, where G = "\<lambda>_. spatial_row" and f = fetched]
  obtain es where "calls w' = calls w @ map Execute es"
    "list_all2 (\<lambda>_. spatial_row) [0..<nat n] es" "ids = map fetched es"
    using insert_spatial_unit_step by auto
  then show ?thesis by (auto simp: list_all2_const)
qed

lemma ba_units_success:
  assumes "ba_units sc env spatial_ids w = (Inr ids, w')"
  shows "\<exists>es. calls w' = calls w @ map Execute es
           \<and> list_all2 baunit_row spatial_ids es \<and> ids = map fetched es"
proof -
  from assms have "for_each (insert_baunit sc env) (enumerate 0 spatial_ids) []
      (w\<lparr>stdout := stdout w @ [''Inserting BAUnits...'']\<rparr>) = (Inr ids, w')"
    by (simp add: ba_units_def for_in_def print_then)
  from for_each_collect[OF this, where G = "\<lambda>p. baunit_row (snd p)" and f = fetched]
  obtain es where "calls w' = calls w @ map Execute es"
    "list_all2 (\<lambda>p. baunit_row (snd p)) (enumerate 0 spatial_ids) es" "ids = map fetched es"
    using insert_baunit_step by fastforce
  then show ?thesis by (auto simp: list_all2_enumerate)
qed

lemma assessments_success:
  assumes "assessments env rate_ids baunit_ids w = (Inr u, w')"
  shows "\<exists>es. calls w' = calls w @ map Execute es
           \<and> list_all2 (assessment_row rate_ids) baunit_ids es"
proof -
  from assms have "for_each (insert_assessment env rate_ids) (enumerate 0 baunit_ids) ()
      (w\<lparr>stdout := stdout w @ [''Inserting TaxAssessments...'']\<rparr>) = (Inr u, w')"
    by (simp add: assessments_def for_in_def print_then)
  from for_each_emit[OF this, where G = "\<lambda>p. assessment_row rate_ids (snd p)"]
  obtain es where "calls w' = calls w @ map Execute es"
    "list_all2 (\<lambda>p. assessment_row rate_ids (snd p)) (enumerate 0 baunit_ids) es"
    using insert_assessment_step by fastforce
  then show ?thesis by (auto simp: list_all2_enumerate)
qed

lemma supplementals_success:
  assumes "supplementals env rate_ids baunit_ids w = (Inr u, w')"
  shows "\<exists>es ps. calls w' = calls w @ map Execute es
           \<and> length ps = min (length baunit_ids div 5) 10 \<and> distinct ps
           \<and> set ps \<subseteq> {..<length baunit_ids}
           \<and> list_all2 (supplemental_row rate_ids) (map ((!) baunit_ids) ps) es"
proof -
  from assms obtain subset where
    s: "sample (rnd env SuppSample 0) baunit_ids (min (length baunit_ids div 5) 10) = Inr subset"
    and "for_each (insert_supplemental env rate_ids) (enumerate 0 subset) ()
      (w\<lparr>stdout := stdout w @ [''Inserting SupplementalAssessments...'']\<rparr>) = (Inr u, w')"
    by (auto simp: supplementals_def for_in_def print_then and_then_Inr)
  from for_each_emit[OF this(2), where G = "\<lambda>p. supplemental_row rate_ids (snd p)"]
  obtain es where es: "calls w' = calls w @ map Execute es"
    "list_all2 (\<lambda>p. supplemental_row rate_ids (snd p)) (enumerate 0 subset) es"
    using insert_supplemental_step by fastforce
  from sample_positions[OF s] obtain ps where
    "length ps = min (length baunit_ids div 5) 10" "distinct ps"
    "set ps \<subseteq> {..<length baunit_ids}" "subset = map ((!) baunit_ids) ps" by auto
  with es show ?thesis by (auto simp: list_all2_enumerate)
qed

lemma ownerships_success:
  assumes "ownerships env party_ids baunit_ids w = (Inr u, w')"
  shows "\<exists>es. calls w' = calls w @ map Execute es
           \<and> list_all2 (rrr_row party_ids) baunit_ids es"
proof -
  from assms have "for_each (insert_rrr env party_ids) (enumerate 0 baunit_ids) ()
      (w\<lparr>stdout := stdout w @ [''Inserting RRR (Ownership)...'']\<rparr>) = (Inr u, w')"
    by (simp add: ownerships_def for_in_def print_then)
  from for_each_emit[OF this, where G = "\<lambda>p. rrr_row party_ids (snd p)"]
  obtain es where "calls w' = calls w @ map Execute es"
    "list_all2 (\<lambda>p. rrr_row party_ids (snd p)) (enumerate 0 baunit_ids) es"
    using insert_rrr_step by fastforce
  then show ?thesis by (auto simp: list_all2_enumerate)
qed

lemma tax_bills_success:
  assumes "tax_bills env party_ids baunit_ids n w = (Inr bills, w')"
  shows "\<exists>es. calls w' = calls w @ map Execute es \<and> length es = nat n
           \<and> list_all (bill_row party_ids baunit_ids) es \<and> bills = map result es"
proof -
  from assms have "for_each (insert_bill env party_ids baunit_ids) [0..<nat n] []
      (w\<lparr>stdout := stdout w @ [''Inserting TaxBills...'']\<rparr>) = (Inr bills, w')"
    by (simp add: tax_bills_def for_range_def print_then)
  from for_each_collect[OF this, where G = "\<lambda>_. bill_row party_ids baunit_ids" and f = result]
  obtain es where "calls w' = calls w @ map Execute es"
    "list_all2 (\<lambda>_. bill_row party_ids baunit_ids) [0..<nat n] es" "bills = map result es"
    using insert_bill_step by auto
  then show ?thesis by (auto simp: list_all2_const)
qed

lemma payments_success:
  assumes "payments env bills w = (Inr u, w')"
  shows "\<exists>ess ps. calls w' = calls w @ map Execute (concat ess)
           \<and> length ps = length bills div 2 \<and> distinct ps \<and> set ps \<subseteq> {..<length bills}
           \<and> list_all2 payment_rows (map ((!) bills) ps) ess"
proof -
  from assms obtain half where
    s: "sample (rnd env PaySample 0) bills (length bills div 2) = Inr half"
    and "for_each (pay_bill env) (enumerate 0 half) ()
      (w\<lparr>stdout := stdout w @ [''Inserting TaxPayments...'']\<rparr>) = (Inr u, w')"
    by (auto simp: payments_def for_in_def print_then and_then_Inr)
  from for_each_groups[OF this(2), where G = "\<lambda>p. payment_rows (snd p)"]
  obtain ess where ess: "calls w' = calls w @ map Execute (concat ess)"
    "list_all2 (\<lambda>p. payment_rows (snd p)) (enumerate 0 half) ess"
    using pay_bill_step by fastforce
  from sample_positions[OF s] obtain ps where
    "length ps = length bills div 2" "distinct ps"
    "set ps \<subseteq> {..<length bills}" "half = map ((!) bills) ps" by auto
  with ess show ?thesis by (auto simp: list_all2_enumerate)
qed

lemma mark_bills_paid_success:
  assumes "mark_bills_paid env bills w = (Inr u, w')"
  shows "\<exists>ess. calls w' = calls w @ map Execute (concat ess)
           \<and> list_all2 (paid_rows env) (enumerate 0 bills) ess"
proof -
  from assms have "for_each (mark_paid env) (enumerate 0 bills) () w = (Inr u, w')"
    by (simp add: mark_bills_paid_def for_in_def)
  from for_each_groups[OF this, where G = "paid_rows env"]
  show ?thesis using mark_paid_step by meson
qed


lemma tra_loop:
  assumes "for_each (insert_tra env) (enumerate 0 tra_codes) [] w = (Inr m, w')"
  shows "\<exists>es. calls w' = calls w @ map Execute es \<and> length es = 3 \<and> list_all tra_row es
           \<and> dict_values m = map fetched es"
proof -
  from assms obtain m1 v1 m2 v2 where
    1: "insert_tra env (0, ''TRA_001'', ''Riverside City District'') [] w = (Inr m1, v1)" and
    2: "insert_tra env (Suc 0, ''TRA_002'', ''Murrieta District'') m1 v1 = (Inr m2, v2)" and
    3: "insert_tra env (Suc (Suc 0), ''TRA_003'', ''Coachella District'') m2 v2 = (Inr m, w')"
    by (auto simp: tra_codes_def and_then_Inr)
  from insert_tra_step[OF 1] obtain e1 where e1: "calls v1 = calls w @ [Execute e1]"
    "tra_row e1" "m1 = dict_set [] ''TRA_001'' (fetched e1)" by blast
  from insert_tra_step[OF 2] obtain e2 where e2: "calls v2 = calls v1 @ [Execute e2]"
    "tra_row e2" "m2 = dict_set m1 ''TRA_002'' (fetched e2)" by blast
  from insert_tra_step[OF 3] obtain e3 where e3: "calls w' = calls v2 @ [Execute e3]"
    "tra_row e3" "m = dict_set m2 ''TRA_003'' (fetched e3)" by blast
  from e1 e2 e3 have "calls w' = calls w @ map Execute [e1, e2, e3] \<and> length [e1, e2, e3] = 3
      \<and> list_all tra_row [e1, e2, e3] \<and> dict_values m = map fetched [e1, e2, e3]"
    by (simp add: dict_values_def)
  then show ?thesis by (intro exI[of _ "[e1, e2, e3]"])
qed

lemma rate_areas_and_rates_success:
  assumes "rate_areas_and_rates env baunit_ids w = (Inr rate_ids, w')"
  shows "\<exists>es4 es5 es6. calls w' = calls w @ map Execute (es4 @ es5 @ es6)
           \<and> length es4 = 3 \<and> list_all tra_row es4
           \<and> length es5 = 3 \<and> list_all rate_row es5 \<and> rate_ids = map fetched es5
           \<and> list_all2 (assign_row (map fetched es4)) baunit_ids es6"
proof -
  from assms obtain m v1 v2 u where
    1: "for_each (insert_tra env) (enumerate 0 tra_codes) []
          (w\<lparr>stdout := stdout w @ [''Inserting TaxRateArea & TaxRate...'']\<rparr>) = (Inr m, v1)" and
    2: "for_each (insert_tax_rate env) (enumerate 0 tax_rates_data) [] v1 = (Inr rate_ids, v2)" and
    3: "for_each (assign_tra env m) (enumerate 0 baunit_ids) () v2 = (Inr u, w')"
    by (auto simp: rate_areas_and_rates_def for_in_def print_then and_then_Inr)
  from tra_loop[OF 1] obtain es4 where es4: "calls v1 = calls w @ map Execute es4"
    "length es4 = 3" "list_all tra_row es4" "dict_values m = map fetched es4" by auto
  from for_each_collect[OF 2, where G = "\<lambda>_. rate_row" and f = fetched]
  obtain es5 where es5: "calls v2 = calls v1 @ map Execute es5"
    "list_all2 (\<lambda>_. rate_row) (enumerate 0 tax_rates_data) es5" "rate_ids = map fetched es5"
    using insert_tax_rate_step by auto
  from es5(2) have l5: "length es5 = 3" "list_all rate_row es5"
    by (auto simp: list_all2_const tax_rates_data_def)
  from for_each_emit[OF 3, where G = "\<lambda>p. assign_row (dict_values m) (snd p)"]
  obtain es6 where es6: "calls w' = calls v2 @ map Execute es6"
    "list_all2 (\<lambda>p. assign_row (dict_values m) (snd p)) (enumerate 0 baunit_ids) es6"
    using assign_tra_step by fastforce
  from es4 es5 l5 es6 have "calls w' = calls w @ map Execute (es4 @ es5 @ es6)
           \<and> length es4 = 3 \<and> list_all tra_row es4
           \<and> length es5 = 3 \<and> list_all rate_row es5 \<and> rate_ids = map fetched es5
           \<and> list_all2 (assign_row (map fetched es4)) baunit_ids es6"
    by (simp add: list_all2_enumerate)
  then show ?thesis by blast
qed


lemma seed_body_success:
  assumes "seed_body sc env n m k w = (Inr u, w')"
  obtains es1 es2 es3 es4 es5 es6 es7 es8 es9 es10 ess11 ess12 ps qs where
    "calls w' = calls w @ map Execute
       (es1 @ es2 @ es3 @ es4 @ es5 @ es6 @ es7 @ es8 @ es9 @ es10 @ concat ess11 @ concat ess12)"
    and "length es1 = nat n" and "list_all party_row es1"
    and "length es2 = nat m" and "list_all spatial_row es2"
    and "list_all2 baunit_row (map fetched es2) es3"
    and "length es4 = 3" and "list_all tra_row es4"
    and "length es5 = 3" and "list_all rate_row es5"
    and "list_all2 (assign_row (map fetched es4)) (map fetched es3) es6"
    and "list_all2 (assessment_row (map fetched es5)) (map fetched es3) es7"
    and "length ps = min (length es3 div 5) 10" and "distinct ps"
    and "set ps \<subseteq> {..<length es3}"
    and "list_all2 (supplemental_row (map fetched es5)) (map ((!) (map fetched es3)) ps) es8"
    and "list_all2 (rrr_row (map fetched es1)) (map fetched es3) es9"
    and "length es10 = nat k"
    and "list_all (bill_row (map fetched es1) (map fetched es3)) es10"
    and "length qs = nat k div 2" and "distinct qs" and "set qs \<subseteq> {..<nat k}"
    and "list_all2 payment_rows (map ((!) (map result es10)) qs) ess11"
    and "list_all2 (paid_rows env) (enumerate 0 (map result es10)) ess12"
proof -
  from assms obtain party_ids w1 spatial_ids w2 baunit_ids w3 rate_ids w4 u5 w5 u6 w6 u7 w7
      bills w8 u9 w9 where
    p1: "parties sc env n (w\<lparr>stdout := stdout w @ [''=== Seeding Start ==='']\<rparr>)
           = (Inr party_ids, w1)" and
    p2: "spatial_units sc env m w1 = (Inr spatial_ids, w2)" and
    p3: "ba_units sc env spatial_ids w2 = (Inr baunit_ids, w3)" and
    p4: "rate_areas_and_rates env baunit_ids w3 = (Inr rate_ids, w4)" and
    p5: "assessments env rate_ids baunit_ids w4 = (Inr u5, w5)" and
    p6: "supplementals env rate_ids baunit_ids w5 = (Inr u6, w6)" and
    p7: "ownerships env party_ids baunit_ids w6 = (Inr u7, w7)" and
    p8: "tax_bills env party_ids baunit_ids k w7 = (Inr bills, w8)" and
    p9: "payments env bills w8 = (Inr u9, w9)" and
    p10: "mark_bills_paid env bills w9 = (Inr u, w')"
    by (auto simp: seed_body_def and_then_Inr)
  from parties_success[OF p1] obtain es1 where 1: "calls w1 = calls w @ map Execute es1"
    "length es1 = nat n" "list_all party_row es1" "party_ids = map fetched es1" by auto
  from spatial_units_success[OF p2] obtain es2 where 2: "calls w2 = calls w1 @ map Execute es2"
    "length es2 = nat m" "list_all spatial_row es2" "spatial_ids = map fetched es2" by auto
  from ba_units_success[OF p3] obtain es3 where 3: "calls w3 = calls w2 @ map Execute es3"
    "list_all2 baunit_row spatial_ids es3" "baunit_ids = map fetched es3" by auto
  from rate_areas_and_rates_success[OF p4] obtain es4 es5 es6 where
    4: "calls w4 = calls w3 @ map Execute (es4 @ es5 @ es6)"
    "length es4 = 3" "list_all tra_row es4"
    "length es5 = 3" "list_all rate_row es5" "rate_ids = map fetched es5"
    "list_all2 (assign_row (map fetched es4)) baunit_ids es6" by auto
  from assessments_success[OF p5] obtain es7 where 5: "calls w5 = calls w4 @ map Execute es7"
    "list_all2 (assessment_row rate_ids) baunit_ids es7" by auto
  from supplementals_success[OF p6] obtain es8 ps where
    6: "calls w6 = calls w5 @ map Execute es8"
    "length ps = min (length baunit_ids div 5) 10" "distinct ps"
    "set ps \<subseteq> {..<length baunit_ids}"
    "list_all2 (supplemental_row rate_ids) (map ((!) baunit_ids) ps) es8" by auto
  from ownerships_success[OF p7] obtain es9 where 7: "calls w7 = calls w6 @ map Execute es9"
    "list_all2 (rrr_row party_ids) baunit_ids es9" by auto
  from tax_bills_success[OF p8] obtain es10 where 8: "calls w8 = calls w7 @ map Execute es10"
    "length es10 = nat k" "list_all (bill_row party_ids baunit_ids) es10"
    "bills = map result es10" by auto
  from payments_success[OF p9] obtain ess11 qs where
    9: "calls w9 = calls w8 @ map Execute (concat ess11)"
    "length qs = length bills div 2" "distinct qs" "set qs \<subseteq> {..<length bills}"
    "list_all2 payment_rows (map ((!) bills) qs) ess11" by auto
  from mark_bills_paid_success[OF p10] obtain ess12 where
    10: "calls w' = calls w9 @ map Execute (concat ess12)"
    "list_all2 (paid_rows env) (enumerate 0 bills) ess12" by auto
  have c: "calls w' = calls w @ map Execute
       (es1 @ es2 @ es3 @ es4 @ es5 @ es6 @ es7 @ es8 @ es9 @ es10 @ concat ess11 @ concat ess12)"
    by (simp add: 1(1) 2(1) 3(1) 4(1) 5(1) 6(1) 7(1) 8(1) 9(1) 10(1))
  show ?thesis
  proof (rule that[of es1 es2 es3 es4 es5 es6 es7 es8 es9 es10 ess11 ess12 ps qs])
    show "calls w' = calls w @ map Execute
       (es1 @ es2 @ es3 @ es4 @ es5 @ es6 @ es7 @ es8 @ es9 @ es10 @ concat ess11 @ concat ess12)"
      by (rule c)
    show "list_all2 baunit_row (map fetched es2) es3" using 3(2) 2(4) by simp
    show "list_all2 (assign_row (map fetched es4)) (map fetched es3) es6" using 4(7) 3(3) by simp
    show "list_all2 (assessment_row (map fetched es5)) (map fetched es3) es7"
      using 5(2) 4(6) 3(3) by simp
    show "length ps = min (length es3 div 5) 10" using 6(2) 3(3) by simp
    show "set ps \<subseteq> {..<length es3}" using 6(4) 3(3) by simp
    show "list_all2 (supplemental_row (map fetched es5)) (map ((!) (map fetched es3)) ps) es8"
      using 6(5) 4(6) 3(3) by simp
    show "list_all2 (rrr_row (map fetched es1)) (map fetched es3) es9"
      using 7(2) 1(4) 3(3) by simp
    show "list_all (bill_row (map fetched es1) (map fetched es3)) es10"
      using 8(3) 1(4) 3(3) by simp
    show "length qs = nat k div 2" using 9(2) 8(2,4) by simp
    show "set qs \<subseteq> {..<nat k}" using 9(4) 8(2,4) by simp
    show "list_all2 payment_rows (map ((!) (map result es10)) qs) ess11" using 9(5) 8(4) by simp
    show "list_all2 (paid_rows env) (enumerate 0 (map result es10)) ess12"
      using 10(2) 8(4) by simp
  qed (fact 1(2) 1(3) 2(2) 2(3) 4(2) 4(3) 4(4) 4(5) 6(3) 8(2) 9(3))+
qed

section \<open>The whole run, when it returns\<close>

lemma foldl_db_step_Execute:
  "foldl db_step (pending, durable) (map Execute es) = (pending @ es, durable)"
  by (induction es arbitrary: pending) auto

lemma committed_returned [simp]:
  "committed (map Execute es @ [Commit, CursorClose, ConnClose]) = es"
  by (simp add: committed_def foldl_db_step_Execute)

lemma committed_rolled_back [simp]:
  "committed (map Execute es @ [Rollback, CursorClose, ConnClose]) = []"
  by (simp add: committed_def foldl_db_step_Execute)

lemma committed_closed [simp]:
  "committed (map Execute es @ [CursorClose, ConnClose]) = []"
  by (simp add: committed_def foldl_db_step_Execute)

lemma row_tables:
  "party_row e \<Longrightarrow> inserts_into t e \<longleftrightarrow> t = LA_Party"
  "spatial_row e \<Longrightarrow> inserts_into t e \<longleftrightarrow> t = LA_SpatialUnit"
  "baunit_row sid e \<Longrightarrow> inserts_into t e \<longleftrightarrow> t = LA_BAUnit"
  "tra_row e \<Longrightarrow> inserts_into t e \<longleftrightarrow> t = TaxRateArea"
  "rate_row e \<Longrightarrow> inserts_into t e \<longleftrightarrow> t = TaxRate"
  "assign_row tra_ids buid e \<Longrightarrow> \<not> inserts_into t e"
  "assessment_row rate_ids buid e \<Longrightarrow> inserts_into t e \<longleftrightarrow> t = TaxAssessment"
  "supplemental_row rate_ids buid e \<Longrightarrow> inserts_into t e \<longleftrightarrow> t = SupplementalAssessment"
  "rrr_row party_ids buid e \<Longrightarrow> inserts_into t e \<longleftrightarrow> t = LA_RRR"
  "bill_row party_ids baunit_ids e \<Longrightarrow> inserts_into t e \<longleftrightarrow> t = TaxBill"
  by (auto simp: party_row_def spatial_row_def baunit_row_def tra_row_def rate_row_def
      assign_row_def assessment_row_def supplemental_row_def rrr_row_def bill_row_def sql_defs)

lemma row_updates:
  "party_row e \<Longrightarrow> \<not> updates t e"
  "spatial_row e \<Longrightarrow> \<not> updates t e"
  "baunit_row sid e \<Longrightarrow> \<not> updates t e"
  "tra_row e \<Longrightarrow> \<not> updates t e"
  "rate_row e \<Longrightarrow> \<not> updates t e"
  "assign_row tra_ids buid e \<Longrightarrow> updates t e \<longleftrightarrow> t = LA_BAUnit"
  "assessment_row rate_ids buid e \<Longrightarrow> \<not> updates t e"
  "supplemental_row rate_ids buid e \<Longrightarrow> \<not> updates t e"
  "rrr_row party_ids buid e \<Longrightarrow> \<not> updates t e"
  "bill_row party_ids baunit_ids e \<Longrightarrow> \<not> updates t e"
  by (auto simp: party_row_def spatial_row_def baunit_row_def tra_row_def rate_row_def
      assign_row_def assessment_row_def supplemental_row_def rrr_row_def bill_row_def sql_defs)

declare inserts_into.simps [simp del] updates.simps [simp del]

lemma payment_rows_tables:
  assumes "payment_rows bill es" and "e \<in> set es"
  shows "inserts_into t e \<longleftrightarrow> t = TaxPayment" and "\<not> updates t e"
  using assms by (auto simp: payment_rows_def list_all_iff sql_defs inserts_into.simps updates.simps)

lemma paid_rows_tables:
  assumes "paid_rows env x es" and "e \<in> set es"
  shows "\<not> inserts_into t e" and "updates t e \<longleftrightarrow> t = TaxBill"
  using assms by (auto simp: paid_rows_def sql_defs inserts_into.simps updates.simps split: if_splits)

lemma filter_segment:
  assumes "\<And>e. e \<in> set es \<Longrightarrow> P e \<longleftrightarrow> c"
  shows "filter P es = (if c then es else [])"
  using assms by (induction es) auto

lemma list_all2_rightD:
  assumes "list_all2 G xs es" and "e \<in> set es"
  obtains x where "x \<in> set xs" and "G x e"
proof -
  from assms(2) obtain i where i: "i < length es" "e = es ! i" by (auto simp: in_set_conv_nth)
  with assms(1) have "xs ! i \<in> set xs" "G (xs ! i) e"
    by (auto simp: list_all2_conv_all_nth)
  then show ?thesis by (rule that)
qed

lemma list_all2_concatD:
  assumes "list_all2 G xs ess" and "e \<in> set (concat ess)"
  obtains x es where "G x es" and "e \<in> set es"
proof -
  from assms(2) obtain es where "es \<in> set ess" "e \<in> set es" by auto
  with assms(1) that show ?thesis by (auto elim: list_all2_rightD)
qed


lemma seed_data_success:
  assumes "seed_data sc env n m k = (Returned, w)"
  obtains es1 es2 es3 es4 es5 es6 es7 es8 es9 es10 ess11 ess12 ps qs where
    "calls w = map Execute
       (es1 @ es2 @ es3 @ es4 @ es5 @ es6 @ es7 @ es8 @ es9 @ es10 @ concat ess11 @ concat ess12)
       @ [Commit, CursorClose, ConnClose]"
    and "length es1 = nat n" and "list_all party_row es1"
    and "length es2 = nat m" and "list_all spatial_row es2"
    and "list_all2 baunit_row (map fetched es2) es3"
    and "length es4 = 3" and "list_all tra_row es4"
    and "length es5 = 3" and "list_all rate_row es5"
    and "list_all2 (assign_row (map fetched es4)) (map fetched es3) es6"
    and "list_all2 (assessment_row (map fetched es5)) (map fetched es3) es7"
    and "length ps = min (length es3 div 5) 10" and "distinct ps"
    and "set ps \<subseteq> {..<length es3}"
    and "list_all2 (supplemental_row (map fetched es5)) (map ((!) (map fetched es3)) ps) es8"
    and "list_all2 (rrr_row (map fetched es1)) (map fetched es3) es9"
    and "length es10 = nat k"
    and "list_all (bill_row (map fetched es1) (map fetched es3)) es10"
    and "length qs = nat k div 2" and "distinct qs" and "set qs \<subseteq> {..<nat k}"
    and "list_all2 payment_rows (map ((!) (map result es10)) qs) ess11"
    and "list_all2 (paid_rows env) (enumerate 0 (map result es10)) ess12"
    and "\<And>t. filter (inserts_into t) (executed (calls w)) =
          (case t of LA_Party \<Rightarrow> es1 | LA_SpatialUnit \<Rightarrow> es2 | LA_BAUnit \<Rightarrow> es3
           | TaxRateArea \<Rightarrow> es4 | TaxRate \<Rightarrow> es5 | TaxAssessment \<Rightarrow> es7
           | SupplementalAssessment \<Rightarrow> es8 | LA_RRR \<Rightarrow> es9 | TaxBill \<Rightarrow> es10
           | TaxPayment \<Rightarrow> concat ess11)"
    and "\<And>t. filter (updates t) (executed (calls w)) =
          (if t = LA_BAUnit then es6 else if t = TaxBill then concat ess12 else [])"
proof -
  from assms obtain wb where b: "seed_body sc env n m k fresh = (Inr (), wb)"
    and w: "calls w = calls wb @ [Commit, CursorClose, ConnClose]"
    by (cases rule: seed_data_cases[of env sc n m k]) auto
  from b show ?thesis
  proof (rule seed_body_success)
    fix es1 es2 es3 es4 es5 es6 es7 es8 es9 es10 ess11 ess12 ps qs
    assume c: "calls wb = calls fresh @ map Execute
       (es1 @ es2 @ es3 @ es4 @ es5 @ es6 @ es7 @ es8 @ es9 @ es10 @ concat ess11 @ concat ess12)"
    assume f: "length es1 = nat n" "list_all party_row es1"
     "length es2 = nat m" "list_all spatial_row es2"
     "list_all2 baunit_row (map fetched es2) es3"
     "length es4 = 3" "list_all tra_row es4"
     "length es5 = 3" "list_all rate_row es5"
     "list_all2 (assign_row (map fetched es4)) (map fetched es3) es6"
     "list_all2 (assessment_row (map fetched es5)) (map fetched es3) es7"
     "length ps = min (length es3 div 5) 10" "distinct ps"
     "set ps \<subseteq> {..<length es3}"
     "list_all2 (supplemental_row (map fetched es5)) (map ((!) (map fetched es3)) ps) es8"
     "list_all2 (rrr_row (map fetched es1)) (map fetched es3) es9"
     "length es10 = nat k"
     "list_all (bill_row (map fetched es1) (map fetched es3)) es10"
     "length qs = nat k div 2" "distinct qs" "set qs \<subseteq> {..<nat k}"
     "list_all2 payment_rows (map ((!) (map result es10)) qs) ess11"
     "list_all2 (paid_rows env) (enumerate 0 (map result es10)) ess12"
    have ex: "executed (calls w) =
       es1 @ es2 @ es3 @ es4 @ es5 @ es6 @ es7 @ es8 @ es9 @ es10 @ concat ess11 @ concat ess12"
      by (simp add: w c fresh_def)
    have i1: "filter (inserts_into t) es1 = (if t = LA_Party then es1 else [])" for t
      using f(2) by (intro filter_segment) (auto simp: list_all_iff row_tables)
    have i2: "filter (inserts_into t) es2 = (if t = LA_SpatialUnit then es2 else [])" for t
      using f(4) by (intro filter_segment) (auto simp: list_all_iff row_tables)
    have i3: "filter (inserts_into t) es3 = (if t = LA_BAUnit then es3 else [])" for t
      using f(5) by (intro filter_segment) (auto elim!: list_all2_rightD simp: row_tables)
    have i4: "filter (inserts_into t) es4 = (if t = TaxRateArea then es4 else [])" for t
      using f(7) by (intro filter_segment) (auto simp: list_all_iff row_tables)
    have i5: "filter (inserts_into t) es5 = (if t = TaxRate then es5 else [])" for t
      using f(9) by (intro filter_segment) (auto simp: list_all_iff row_tables)
    have i6: "filter (inserts_into t) es6 = (if False then es6 else [])" for t
      using f(10) by (intro filter_segment) (auto elim!: list_all2_rightD simp: row_tables)
    have i7: "filter (inserts_into t) es7 = (if t = TaxAssessment then es7 else [])" for t
      using f(11) by (intro filter_segment) (auto elim!: list_all2_rightD simp: row_tables)
    have i8: "filter (inserts_into t) es8 = (if t = SupplementalAssessment then es8 else [])" for t
      using f(15) by (intro filter_segment) (auto elim!: list_all2_rightD simp: row_tables)
    have i9: "filter (inserts_into t) es9 = (if t = LA_RRR then es9 else [])" for t
      using f(16) by (intro filter_segment) (auto elim!: list_all2_rightD simp: row_tables)
    have i10: "filter (inserts_into t) es10 = (if t = TaxBill then es10 else [])" for t
      using f(18) by (intro filter_segment) (auto simp: list_all_iff row_tables)
    have i11: "filter (inserts_into t) (concat ess11)
        = (if t = TaxPayment then concat ess11 else [])" for t
    proof (rule filter_segment)
      fix e assume "e \<in> set (concat ess11)"
      with f(22) obtain x es where "payment_rows x es" "e \<in> set es"
        by (rule list_all2_concatD)
      then show "inserts_into t e \<longleftrightarrow> t = TaxPayment" by (rule payment_rows_tables)
    qed
    have i12: "filter (inserts_into t) (concat ess12) = (if False then concat ess12 else [])" for t
    proof (rule filter_segment)
      fix e assume "e \<in> set (concat ess12)"
      with f(23) obtain x es where "paid_rows env x es" "e \<in> set es"
        by (rule list_all2_concatD)
      then show "inserts_into t e \<longleftrightarrow> False" using paid_rows_tables(1) by simp
    qed
    have u1: "filter (updates t) es1 = (if False then es1 else [])" for t
      using f(2) by (intro filter_segment) (auto simp: list_all_iff row_updates)
    have u2: "filter (updates t) es2 = (if False then es2 else [])" for t
      using f(4) by (intro filter_segment) (auto simp: list_all_iff row_updates)
    have u3: "filter (updates t) es3 = (if False then es3 else [])" for t
      using f(5) by (intro filter_segment) (auto elim!: list_all2_rightD simp: row_updates)
    have u4: "filter (updates t) es4 = (if False then es4 else [])" for t
      using f(7) by (intro filter_segment) (auto simp: list_all_iff row_updates)
    have u5: "filter (updates t) es5 = (if False then es5 else [])" for t
      using f(9) by (intro filter_segment) (auto simp: list_all_iff row_updates)
    have u6: "filter (updates t) es6 = (if t = LA_BAUnit then es6 else [])" for t
      using f(10) by (intro filter_segment) (auto elim!: list_all2_rightD simp: row_updates)
    have u7: "filter (updates t) es7 = (if False then es7 else [])" for t
      using f(11) by (intro filter_segment) (auto elim!: list_all2_rightD simp: row_updates)
    have u8: "filter (updates t) es8 = (if False then es8 else [])" for t
      using f(15) by (intro filter_segment) (auto elim!: list_all2_rightD simp: row_updates)
    have u9: "filter (updates t) es9 = (if False then es9 else [])" for t
      using f(16) by (intro filter_segment) (auto elim!: list_all2_rightD simp: row_updates)
    have u10: "filter (updates t) es10 = (if False then es10 else [])" for t
      using f(18) by (intro filter_segment) (auto simp: list_all_iff row_updates)
    have u11: "filter (updates t) (concat ess11) = (if False then concat ess11 else [])" for t
    proof (rule filter_segment)
      fix e assume "e \<in> set (concat ess11)"
      with f(22) obtain x es where "payment_rows x es" "e \<in> set es"
        by (rule list_all2_concatD)
      then show "updates t e \<longleftrightarrow> False" using payment_rows_tables(2) by simp
    qed
    have u12: "filter (updates t) (concat ess12) = (if t = TaxBill then concat ess12 else [])" for t
    proof (rule filter_segment)
      fix e assume "e \<in> set (concat ess12)"
      with f(23) obtain x es where "paid_rows env x es" "e \<in> set es"
        by (rule list_all2_concatD)
      then show "updates t e \<longleftrightarrow> t = TaxBill" by (rule paid_rows_tables)
    qed
    have ins: "filter (inserts_into t) (executed (calls w)) =
          (case t of LA_Party \<Rightarrow> es1 | LA_SpatialUnit \<Rightarrow> es2 | LA_BAUnit \<Rightarrow> es3
           | TaxRateArea \<Rightarrow> es4 | TaxRate \<Rightarrow> es5 | TaxAssessment \<Rightarrow> es7
           | SupplementalAssessment \<Rightarrow> es8 | LA_RRR \<Rightarrow> es9 | TaxBill \<Rightarrow> es10
           | TaxPayment \<Rightarrow> concat ess11)" for t
      unfolding ex filter_append i1 i2 i3 i4 i5 i6 i7 i8 i9 i10 i11 i12
      by (cases t) simp_all
    have upd: "filter (updates t) (executed (calls w)) =
          (if t = LA_BAUnit then es6 else if t = TaxBill then concat ess12 else [])" for t
      unfolding ex filter_append u1 u2 u3 u4 u5 u6 u7 u8 u9 u10 u11 u12
      by simp
    show ?thesis
      by (rule that[of es1 es2 es3 es4 es5 es6 es7 es8 es9 es10 ess11 ess12 ps qs])
         (simp add: w c fresh_def, (fact f)+, rule ins, rule upd)
  qed
qed

section \<open>Row counts\<close>

lemma returned_run: "fst r = Returned \<Longrightarrow> r = (Returned, snd r)"
  by (cases r) simp

lemma committed_is_executed:
  assumes "calls w = map Execute es @ [Commit, CursorClose, ConnClose]"
  shows "committed (calls w) = executed (calls w)"
  using assms by simp

text \<open>
  Claim C1. When \<open>seed_data\<close> returns (no exception) for non-negative requested counts,
  the run has executed exactly \<open>num_parties\<close> inserts into LA_Party, \<open>num_parcels\<close> into
  LA_SpatialUnit, \<open>num_parcels\<close> into LA_BAUnit and \<open>num_bills\<close> into TaxBill, and the
  committed transaction holds as many rows of each. Both scripts.
\<close>

theorem row_counts:
  assumes "seed_data sc env num_parties num_parcels num_bills = (Returned, w)"
    and "0 \<le> num_parties" and "0 \<le> num_parcels" and "0 \<le> num_bills"
  shows "int (length (filter (inserts_into LA_Party) (executed (calls w)))) = num_parties
       \<and> int (length (filter (inserts_into LA_SpatialUnit) (executed (calls w)))) = num_parcels
       \<and> int (length (filter (inserts_into LA_BAUnit) (executed (calls w)))) = num_parcels
       \<and> int (length (filter (inserts_into TaxBill) (executed (calls w)))) = num_bills
       \<and> int (length (rows LA_Party w)) = num_parties
       \<and> int (length (rows LA_SpatialUnit w)) = num_parcels
       \<and> int (length (rows LA_BAUnit w)) = num_parcels
       \<and> int (length (rows TaxBill w)) = num_bills"
  using assms(1)
proof (rule seed_data_success)
  fix es1 es2 es3 es4 es5 es6 es7 es8 es9 es10 :: "entry list"
  fix ess11 ess12 :: "entry list list"
  assume c: "calls w = map Execute
       (es1 @ es2 @ es3 @ es4 @ es5 @ es6 @ es7 @ es8 @ es9 @ es10 @ concat ess11 @ concat ess12)
       @ [Commit, CursorClose, ConnClose]"
    and l: "length es1 = nat num_parties" "length es2 = nat num_parcels"
      "list_all2 baunit_row (map fetched es2) es3" "length es10 = nat num_bills"
    and ins: "\<And>t. filter (inserts_into t) (executed (calls w)) =
          (case t of LA_Party \<Rightarrow> es1 | LA_SpatialUnit \<Rightarrow> es2 | LA_BAUnit \<Rightarrow> es3
           | TaxRateArea \<Rightarrow> es4 | TaxRate \<Rightarrow> es5 | TaxAssessment \<Rightarrow> es7
           | SupplementalAssessment \<Rightarrow> es8 | LA_RRR \<Rightarrow> es9 | TaxBill \<Rightarrow> es10
           | TaxPayment \<Rightarrow> concat ess11)"
  from l(3) have l3: "length es3 = length es2" by (auto dest: list_all2_lengthD)
  have r: "rows t w = filter (inserts_into t) (executed (calls w))" for t
    unfolding rows_def committed_is_executed[OF c] ..
  show ?thesis
    unfolding r ins using l(1,2,4) l3 assms(2-4) by simp
qed

theorem row_counts_witness:
  "seed_data Seeder demo_env 1 5 2 = (Returned, snd (seed_data Seeder demo_env 1 5 2))
   \<and> (0::int) \<le> 1 \<and> (0::int) \<le> 5 \<and> (0::int) \<le> 2
   \<and> int (length (rows LA_Party (snd (seed_data Seeder demo_env 1 5 2)))) = 1
   \<and> int (length (rows LA_SpatialUnit (snd (seed_data Seeder demo_env 1 5 2)))) = 5
   \<and> int (length (rows LA_BAUnit (snd (seed_data Seeder demo_env 1 5 2)))) = 5
   \<and> int (length (rows TaxBill (snd (seed_data Seeder demo_env 1 5 2)))) = 2"
proof -
  have "fst (seed_data Seeder demo_env 1 5 2) = Returned" by code_simp
  then have 1: "seed_data Seeder demo_env 1 5 2 = (Returned, snd (seed_data Seeder demo_env 1 5 2))"
    by (rule returned_run)
  from row_counts[OF 1] 1 show ?thesis by simp
qed

lemma int_min_div: "int (min (nat m div 5) 10) = min (max m 0 div 5) 10"
proof -
  have "int (nat m div 5) = int (nat m) div 5" by (simp add: zdiv_int)
  also have "int (nat m) = max m 0" by (simp add: max_def)
  finally show ?thesis by (simp add: min_def)
qed

lemma supplemental_row_unit:
  "supplemental_row rate_ids buid e \<Longrightarrow> bound e ''ba_unit_id'' = Some buid"
  by (auto simp: supplemental_row_def bound_def supplemental_sql_def)

text \<open>
  Claim C3, as stated, for every run that returns: the number of SupplementalAssessment
  rows is \<open>min (num_parcels div 5) 10\<close>. It fails for a negative parcel count, which
  \<^verbatim>\<open>argparse\<close> accepts: \<^verbatim>\<open>range\<close> of a negative number is empty, the run inserts no unit
  and no supplemental assessment and returns, while \<open>min ((- 5) div 5) 10 = - 1\<close>.
\<close>

theorem supplemental_count_counterexample:
  "fst (seed_data Seeder demo_env 0 (- 5) 0) = Returned
   \<and> int (length (rows SupplementalAssessment (snd (seed_data Seeder demo_env 0 (- 5) 0))))
       \<noteq> min ((- 5) div 5) 10"
  by code_simp

text \<open>
  Claim C3, amended. When \<open>seed_data\<close> returns, the number of SupplementalAssessment rows
  is \<open>min (max num_parcels 0 div 5) 10\<close>: it is \<open>min (num_parcels div 5) 10\<close> for a
  non-negative parcel count and zero for a negative one. The administrative units of
  these rows are the units at pairwise different positions of the list of inserted units
  (a sample without replacement). Both scripts.
\<close>

theorem supplemental_count:
  assumes "seed_data sc env num_parties num_parcels num_bills = (Returned, w)"
  shows "int (length (rows SupplementalAssessment w)) = min (max num_parcels 0 div 5) 10
       \<and> (\<exists>ps. distinct ps \<and> set ps \<subseteq> {..<length (rows LA_BAUnit w)}
              \<and> map (\<lambda>e. bound e ''ba_unit_id'') (rows SupplementalAssessment w)
                  = map (\<lambda>p. Some (fetched (rows LA_BAUnit w ! p))) ps)"
  using assms(1)
proof (rule seed_data_success)
  fix es1 es2 es3 es4 es5 es6 es7 es8 es9 es10 :: "entry list"
  fix ess11 ess12 :: "entry list list"
  fix ps :: "nat list"
  assume c: "calls w = map Execute
       (es1 @ es2 @ es3 @ es4 @ es5 @ es6 @ es7 @ es8 @ es9 @ es10 @ concat ess11 @ concat ess12)
       @ [Commit, CursorClose, ConnClose]"
    and l: "length es2 = nat num_parcels"
      "list_all2 baunit_row (map fetched es2) es3"
    and p: "length ps = min (length es3 div 5) 10" "distinct ps" "set ps \<subseteq> {..<length es3}"
      "list_all2 (supplemental_row (map fetched es5)) (map ((!) (map fetched es3)) ps) es8"
    and ins: "\<And>t. filter (inserts_into t) (executed (calls w)) =
          (case t of LA_Party \<Rightarrow> es1 | LA_SpatialUnit \<Rightarrow> es2 | LA_BAUnit \<Rightarrow> es3
           | TaxRateArea \<Rightarrow> es4 | TaxRate \<Rightarrow> es5 | TaxAssessment \<Rightarrow> es7
           | SupplementalAssessment \<Rightarrow> es8 | LA_RRR \<Rightarrow> es9 | TaxBill \<Rightarrow> es10
           | TaxPayment \<Rightarrow> concat ess11)"
  from l have l3: "length es3 = nat num_parcels" by (auto dest: list_all2_lengthD)
  have r: "rows t w = filter (inserts_into t) (executed (calls w))" for t
    unfolding rows_def committed_is_executed[OF c] ..
  from p(4) have l8: "length es8 = length ps" by (auto dest: list_all2_lengthD)
  have "int (length es8) = min (max num_parcels 0 div 5) 10"
    using l8 p(1) l3 int_min_div[of num_parcels] by simp
  moreover have "map (\<lambda>e. bound e ''ba_unit_id'') es8 = map (\<lambda>p. Some (fetched (es3 ! p))) ps"
  proof (rule nth_equalityI)
    show "length (map (\<lambda>e. bound e ''ba_unit_id'') es8)
        = length (map (\<lambda>p. Some (fetched (es3 ! p))) ps)" using l8 by simp
  next
    fix i assume "i < length (map (\<lambda>e. bound e ''ba_unit_id'') es8)"
    then have i: "i < length ps" using l8 by simp
    with p(3) have "ps ! i < length es3" by (auto simp: subset_eq)
    moreover from p(4) i have "supplemental_row (map fetched es5) (map fetched es3 ! (ps ! i)) (es8 ! i)"
      by (auto simp: list_all2_conv_all_nth)
    ultimately have "bound (es8 ! i) ''ba_unit_id'' = Some (fetched (es3 ! (ps ! i)))"
      by (auto dest: supplemental_row_unit)
    then show "map (\<lambda>e. bound e ''ba_unit_id'') es8 ! i = map (\<lambda>p. Some (fetched (es3 ! p))) ps ! i"
      using i l8 by simp
  qed
  ultimately show ?thesis
    unfolding r ins using p(2,3) by auto
qed

theorem supplemental_count_witness:
  "seed_data Seeder demo_env 1 5 2 = (Returned, snd (seed_data Seeder demo_env 1 5 2))
   \<and> int (length (rows SupplementalAssessment (snd (seed_data Seeder demo_env 1 5 2))))
       = min (max 5 0 div 5) 10
   \<and> map (\<lambda>e. bound e ''ba_unit_id'')
        (rows SupplementalAssessment (snd (seed_data Seeder demo_env 1 5 2))) = [Some (VInt 6)]"
proof -
  have "fst (seed_data Seeder demo_env 1 5 2) = Returned" by code_simp
  then have 1: "seed_data Seeder demo_env 1 5 2 = (Returned, snd (seed_data Seeder demo_env 1 5 2))"
    by (rule returned_run)
  have 2: "map (\<lambda>e. bound e ''ba_unit_id'')
        (rows SupplementalAssessment (snd (seed_data Seeder demo_env 1 5 2))) = [Some (VInt 6)]"
    by code_simp
  from supplemental_count[OF 1] 1 2 show ?thesis by simp
qed

section \<open>Payments and the paid flag\<close>

lemma payment_rows_billed:
  assumes "payment_rows bill es" and "e \<in> set es"
  shows "billed e = bill"
  using assms by (auto simp: payment_rows_def list_all_iff billed_def bound_def payment_sql_def)

lemma paid_rows_billed:
  assumes "paid_rows env (i, bill) es"
  shows "map billed es = (if below_half (rnd env PaidCoin i 0) then [bill] else [])"
    and "\<forall>e\<in>set es. query e = mark_paid_sql"
  using assms
  by (auto simp: paid_rows_def billed_def bound_def mark_paid_sql_def split: if_splits)

lemma paid_keys_enumerate:
  assumes "list_all2 (paid_rows env) (enumerate n bills) ess"
  shows "map billed (concat ess)
      = map snd (filter (\<lambda>p. below_half (rnd env PaidCoin (fst p) 0)) (enumerate n bills))"
  using assms
proof (induction bills arbitrary: n ess)
  case Nil
  then show ?case by simp
next
  case (Cons b bills)
  from Cons.prems obtain es rest where ess: "ess = es # rest"
    and 1: "paid_rows env (n, b) es"
    and 2: "list_all2 (paid_rows env) (enumerate (Suc n) bills) rest"
    by (auto simp: list_all2_Cons1)
  from Cons.IH[OF 2] paid_rows_billed(1)[OF 1] show ?case
    by (simp add: ess)
qed

lemma enumerate_filter_nth:
  "map snd (filter (\<lambda>p. P (fst p)) (enumerate 0 xs))
     = map ((!) xs) (filter P [0..<length xs])"
proof -
  have "enumerate 0 xs = map (\<lambda>i. (i, xs ! i)) [0..<length xs]"
    by (rule nth_equalityI) (simp_all add: nth_enumerate_eq)
  then show ?thesis by (simp add: filter_map comp_def)
qed

lemma group_count:
  assumes "list_all2 (\<lambda>q g. (length g = 1 \<or> length g = 2) \<and> (\<forall>e\<in>set g. f e = key q)) qs gs"
    and "distinct qs" and "\<forall>q\<in>set qs. q \<noteq> j \<longrightarrow> key q \<noteq> key j"
  shows "length (filter (\<lambda>e. f e = key j) (concat gs))
      \<in> (if j \<in> set qs then {1, 2} else {0})"
  using assms
proof (induction qs gs rule: list_all2_induct)
  case Nil
  then show ?case by simp
next
  case (Cons q qs g gs)
  from Cons.prems have d: "distinct qs" "q \<notin> set qs"
    and inj: "\<forall>q\<in>set qs. q \<noteq> j \<longrightarrow> key q \<noteq> key j" by auto
  note ih = Cons.IH[OF d(1) inj]
  show ?case
  proof (cases "q = j")
    case True
    with Cons.hyps(1) have "filter (\<lambda>e. f e = key j) g = g" by (auto simp: filter_id_conv)
    moreover from True d(2) ih have "length (filter (\<lambda>e. f e = key j) (concat gs)) = 0"
      by auto
    ultimately show ?thesis using True Cons.hyps(1) by auto
  next
    case False
    with Cons.prems(2) have "key q \<noteq> key j" by simp
    with Cons.hyps(1) have "filter (\<lambda>e. f e = key j) g = []" by (auto simp: filter_empty_conv)
    with False ih show ?thesis by simp
  qed
qed

lemma int_half: "int (nat k div 2) = max k 0 div 2"
proof -
  have "int (nat k div 2) = int (nat k) div 2" by (simp add: zdiv_int)
  also have "int (nat k) = max k 0" by (simp add: max_def)
  finally show ?thesis .
qed

lemma int_nat_max: "int (nat k) = max k 0"
  by (simp add: max_def)

text \<open>
  Claim C2, as stated, for every run that returns: exactly \<open>num_bills div 2\<close> bills have
  payments. It fails for a negative bill count, which \<^verbatim>\<open>argparse\<close> accepts: the run inserts
  no bill and no payment and returns, while \<open>(- 2) div 2 = - 1\<close>.
\<close>

theorem half_of_the_bills_get_payments_counterexample:
  "fst (seed_data Seeder demo_env 0 0 (- 2)) = Returned
   \<and> int (length (bills_with_payments (snd (seed_data Seeder demo_env 0 0 (- 2)))))
       \<noteq> (- 2) div 2"
  by code_simp

text \<open>
  Claim C2, amended. When \<open>seed_data\<close> returns, \<open>max num_bills 0\<close> bills have been inserted
  and the payment rows fall into \<open>max num_bills 0 div 2\<close> groups of one or two rows; the
  groups belong to bills at pairwise different positions of the list of inserted bills
  (a sample without replacement), and every row of a group carries the key of its bill.
  When the database has returned different keys for different bills, each sampled bill
  therefore has one or two payment rows and every other bill has none. Both scripts.
\<close>

theorem half_of_the_bills_get_payments:
  assumes "seed_data sc env num_parties num_parcels num_bills = (Returned, w)"
  shows "\<exists>qs groups.
           int (length (rows TaxBill w)) = max num_bills 0
         \<and> int (length qs) = max num_bills 0 div 2
         \<and> distinct qs \<and> set qs \<subseteq> {..<length (rows TaxBill w)}
         \<and> rows TaxPayment w = concat groups
         \<and> list_all2 (\<lambda>q g. (length g = 1 \<or> length g = 2)
                \<and> (\<forall>e\<in>set g. billed e = result (rows TaxBill w ! q))) qs groups
         \<and> (distinct (map result (rows TaxBill w)) \<longrightarrow>
              (\<forall>j<length (rows TaxBill w).
                 length (filter (\<lambda>e. billed e = result (rows TaxBill w ! j)) (rows TaxPayment w))
                   \<in> (if j \<in> set qs then {1, 2} else {0})))"
  using assms(1)
proof (rule seed_data_success)
  fix es1 es2 es3 es4 es5 es6 es7 es8 es9 es10 :: "entry list"
  fix ess11 ess12 :: "entry list list"
  fix qs :: "nat list"
  assume c: "calls w = map Execute
       (es1 @ es2 @ es3 @ es4 @ es5 @ es6 @ es7 @ es8 @ es9 @ es10 @ concat ess11 @ concat ess12)
       @ [Commit, CursorClose, ConnClose]"
    and l: "length es10 = nat num_bills"
    and q: "length qs = nat num_bills div 2" "distinct qs" "set qs \<subseteq> {..<nat num_bills}"
      "list_all2 payment_rows (map ((!) (map result es10)) qs) ess11"
    and ins: "\<And>t. filter (inserts_into t) (executed (calls w)) =
          (case t of LA_Party \<Rightarrow> es1 | LA_SpatialUnit \<Rightarrow> es2 | LA_BAUnit \<Rightarrow> es3
           | TaxRateArea \<Rightarrow> es4 | TaxRate \<Rightarrow> es5 | TaxAssessment \<Rightarrow> es7
           | SupplementalAssessment \<Rightarrow> es8 | LA_RRR \<Rightarrow> es9 | TaxBill \<Rightarrow> es10
           | TaxPayment \<Rightarrow> concat ess11)"
  have r: "rows t w = filter (inserts_into t) (executed (calls w))" for t
    unfolding rows_def committed_is_executed[OF c] ..
  have rb: "rows TaxBill w = es10" and rp: "rows TaxPayment w = concat ess11"
    by (simp_all add: r ins)
  from q(4) have "list_all2 (\<lambda>q. payment_rows (map result es10 ! q)) qs ess11"
    by (simp add: list_all2_map1)
  then have groups: "list_all2 (\<lambda>q g. (length g = 1 \<or> length g = 2)
                \<and> (\<forall>e\<in>set g. billed e = result (es10 ! q))) qs ess11"
  proof (rule list.rel_mono_strong)
    fix q g assume "q \<in> set qs" and p: "payment_rows (map result es10 ! q) g"
    with q(3) l have "map result es10 ! q = result (es10 ! q)" by auto
    with p show "(length g = 1 \<or> length g = 2) \<and> (\<forall>e\<in>set g. billed e = result (es10 ! q))"
      by (auto simp: payment_rows_billed) (auto simp: payment_rows_def)
  qed
  have count: "length (filter (\<lambda>e. billed e = result (es10 ! j)) (concat ess11))
      \<in> (if j \<in> set qs then {1, 2} else {0})"
    if d: "distinct (map result es10)" and j: "j < length es10" for j
  proof (rule group_count[OF groups q(2)], intro ballI impI)
    fix q assume "q \<in> set qs" and "q \<noteq> j"
    with q(3) l have "q < length es10" by auto
    with d j \<open>q \<noteq> j\<close> show "result (es10 ! q) \<noteq> result (es10 ! j)"
      by (auto simp: distinct_conv_nth)
  qed
  have "int (length es10) = max num_bills 0 \<and> int (length qs) = max num_bills 0 div 2
      \<and> distinct qs \<and> set qs \<subseteq> {..<length es10}
      \<and> concat ess11 = concat ess11
      \<and> list_all2 (\<lambda>q g. (length g = 1 \<or> length g = 2)
                \<and> (\<forall>e\<in>set g. billed e = result (es10 ! q))) qs ess11
      \<and> (distinct (map result es10) \<longrightarrow>
              (\<forall>j<length es10.
                 length (filter (\<lambda>e. billed e = result (es10 ! j)) (concat ess11))
                   \<in> (if j \<in> set qs then {1, 2} else {0})))"
    using l q(1,2,3) groups count int_half[of num_bills] int_nat_max[of num_bills] by simp
  then show ?thesis unfolding rb rp by blast
qed

text \<open>
  Claim C4. In a run that returns, every bill is inserted with \<open>is_paid\<close> false; the
  updates of TaxBill are \<^verbatim>\<open>SET is_paid = TRUE\<close> statements, one for each bill whose own draw
  of \<^verbatim>\<open>random.random()\<close> is below \<open>0.5\<close>, in the order of the bills, and for no other bill.
  With different keys for different bills, a bill ends up paid exactly when its own draw
  is below \<open>0.5\<close>. A second run with the same bills and the same draws for the paid flag,
  whatever its payments are, sets the same bills to paid. Both scripts.
\<close>

theorem paid_flag_is_a_coin_flip:
  assumes "seed_data sc env num_parties num_parcels num_bills = (Returned, w)"
    and "seed_data sc env' num_parties num_parcels num_bills = (Returned, w')"
    and "map result (rows TaxBill w') = map result (rows TaxBill w)"
    and "\<forall>i<length (rows TaxBill w).
           below_half (rnd env' PaidCoin i 0) = below_half (rnd env PaidCoin i 0)"
  shows "(\<forall>e\<in>set (rows TaxBill w). bound e ''is_paid'' = Some (VBool False))
       \<and> (\<forall>e\<in>set (filter (updates TaxBill) (committed (calls w))). query e = mark_paid_sql)
       \<and> paid_keys w = map (\<lambda>i. result (rows TaxBill w ! i))
            (filter (\<lambda>i. below_half (rnd env PaidCoin i 0)) [0..<length (rows TaxBill w)])
       \<and> (distinct (map result (rows TaxBill w)) \<longrightarrow>
            (\<forall>j<length (rows TaxBill w).
               result (rows TaxBill w ! j) \<in> set (paid_keys w)
                 \<longleftrightarrow> below_half (rnd env PaidCoin j 0)))
       \<and> paid_keys w' = paid_keys w"
proof -
  have main: "(\<forall>e\<in>set (rows TaxBill v). bound e ''is_paid'' = Some (VBool False))
       \<and> (\<forall>e\<in>set (filter (updates TaxBill) (committed (calls v))). query e = mark_paid_sql)
       \<and> paid_keys v = map ((!) (map result (rows TaxBill v)))
            (filter (\<lambda>i. below_half (rnd en PaidCoin i 0)) [0..<length (rows TaxBill v)])"
    if run: "seed_data sc en num_parties num_parcels num_bills = (Returned, v)" for en v
    using run
  proof (rule seed_data_success)
    fix es1 es2 es3 es4 es5 es6 es7 es8 es9 es10 :: "entry list"
    fix ess11 ess12 :: "entry list list"
    assume c: "calls v = map Execute
       (es1 @ es2 @ es3 @ es4 @ es5 @ es6 @ es7 @ es8 @ es9 @ es10 @ concat ess11 @ concat ess12)
       @ [Commit, CursorClose, ConnClose]"
      and b: "list_all (bill_row (map fetched es1) (map fetched es3)) es10"
      and p: "list_all2 (paid_rows en) (enumerate 0 (map result es10)) ess12"
      and ins: "\<And>t. filter (inserts_into t) (executed (calls v)) =
          (case t of LA_Party \<Rightarrow> es1 | LA_SpatialUnit \<Rightarrow> es2 | LA_BAUnit \<Rightarrow> es3
           | TaxRateArea \<Rightarrow> es4 | TaxRate \<Rightarrow> es5 | TaxAssessment \<Rightarrow> es7
           | SupplementalAssessment \<Rightarrow> es8 | LA_RRR \<Rightarrow> es9 | TaxBill \<Rightarrow> es10
           | TaxPayment \<Rightarrow> concat ess11)"
      and upd: "\<And>t. filter (updates t) (executed (calls v)) =
          (if t = LA_BAUnit then es6 else if t = TaxBill then concat ess12 else [])"
    have ce: "committed (calls v) = executed (calls v)" by (rule committed_is_executed[OF c])
    have rb: "rows TaxBill v = es10" by (simp add: rows_def ce ins)
    have ru: "filter (updates TaxBill) (committed (calls v)) = concat ess12"
      by (simp add: ce upd)
    have 1: "\<forall>e\<in>set es10. bound e ''is_paid'' = Some (VBool False)"
      using b by (auto simp: list_all_iff bill_row_def bound_def bill_sql_def)
    have 2: "\<forall>e\<in>set (concat ess12). query e = mark_paid_sql"
    proof
      fix e assume "e \<in> set (concat ess12)"
      with p obtain x es where "paid_rows en x es" "e \<in> set es" by (rule list_all2_concatD)
      then show "query e = mark_paid_sql" using paid_rows_billed(2)[of en "fst x" "snd x" es]
        by simp
    qed
    have 3: "map billed (concat ess12) = map ((!) (map result es10))
            (filter (\<lambda>i. below_half (rnd en PaidCoin i 0)) [0..<length es10])"
      using paid_keys_enumerate[OF p]
        enumerate_filter_nth[of "\<lambda>i. below_half (rnd en PaidCoin i 0)" "map result es10"]
      by simp
    from 1 2 3 show ?thesis unfolding paid_keys_def rb ru by simp
  qed
  note m1 = main[OF assms(1)] and m2 = main[OF assms(2)]
  from assms(3) have len: "length (rows TaxBill w') = length (rows TaxBill w)"
    by (metis length_map)
  have nth: "map ((!) (map result (rows TaxBill w))) is = map (\<lambda>i. result (rows TaxBill w ! i)) is"
    if "set is \<subseteq> {..<length (rows TaxBill w)}" for "is"
    using that by (auto simp: subset_eq)
  have keys: "paid_keys w = map (\<lambda>i. result (rows TaxBill w ! i))
            (filter (\<lambda>i. below_half (rnd env PaidCoin i 0)) [0..<length (rows TaxBill w)])"
    using m1 by (simp add: nth)
  have same: "filter (\<lambda>i. below_half (rnd env' PaidCoin i 0)) [0..<length (rows TaxBill w)]
      = filter (\<lambda>i. below_half (rnd env PaidCoin i 0)) [0..<length (rows TaxBill w)]"
    using assms(4) by (intro filter_cong) auto
  have eq: "paid_keys w' = paid_keys w"
    using m1 m2 by (simp add: assms(3) len same)
  have own: "result (rows TaxBill w ! j) \<in> set (paid_keys w)
      \<longleftrightarrow> below_half (rnd env PaidCoin j 0)"
    if d: "distinct (map result (rows TaxBill w))" and j: "j < length (rows TaxBill w)" for j
  proof
    assume "result (rows TaxBill w ! j) \<in> set (paid_keys w)"
    then obtain i where i: "i < length (rows TaxBill w)" "below_half (rnd env PaidCoin i 0)"
      "result (rows TaxBill w ! i) = result (rows TaxBill w ! j)"
      unfolding keys by auto
    with d j have "i = j" by (auto simp: distinct_conv_nth)
    with i(2) show "below_half (rnd env PaidCoin j 0)" by simp
  next
    assume "below_half (rnd env PaidCoin j 0)"
    with j show "result (rows TaxBill w ! j) \<in> set (paid_keys w)"
      unfolding keys by auto
  qed
  from m1 keys own eq show ?thesis by blast
qed

theorem half_of_the_bills_get_payments_witness:
  "seed_data Seeder demo_env 1 5 2 = (Returned, snd (seed_data Seeder demo_env 1 5 2))
   \<and> distinct (map result (rows TaxBill (snd (seed_data Seeder demo_env 1 5 2))))
   \<and> (\<exists>(qs :: nat list) groups. int (length qs) = max 2 0 div 2 \<and> distinct qs
          \<and> rows TaxPayment (snd (seed_data Seeder demo_env 1 5 2)) = concat groups
          \<and> length groups = length qs)
   \<and> map billed (rows TaxPayment (snd (seed_data Seeder demo_env 1 5 2)))
       = [Some [VDate 738000, VInt 33]]"
proof -
  have "fst (seed_data Seeder demo_env 1 5 2) = Returned" by code_simp
  then have 1: "seed_data Seeder demo_env 1 5 2 = (Returned, snd (seed_data Seeder demo_env 1 5 2))"
    by (rule returned_run)
  have 2: "distinct (map result (rows TaxBill (snd (seed_data Seeder demo_env 1 5 2))))"
    by code_simp
  have 3: "map billed (rows TaxPayment (snd (seed_data Seeder demo_env 1 5 2)))
       = [Some [VDate 738000, VInt 33]]"
    by code_simp
  from half_of_the_bills_get_payments[OF 1] obtain qs groups where q:
    "int (length qs) = max 2 0 div 2" "distinct qs"
    "rows TaxPayment (snd (seed_data Seeder demo_env 1 5 2)) = concat groups"
    "list_all2 (\<lambda>q g. (length g = 1 \<or> length g = 2)
        \<and> (\<forall>e\<in>set g. billed e = result (rows TaxBill (snd (seed_data Seeder demo_env 1 5 2)) ! q)))
       qs groups"
    by blast
  from q(4) have len: "length groups = length qs" by (auto dest: list_all2_lengthD)
  have "int (length qs) = max 2 0 div 2 \<and> distinct qs
          \<and> rows TaxPayment (snd (seed_data Seeder demo_env 1 5 2)) = concat groups
          \<and> length groups = length qs"
    by (intro conjI q(1) q(2) q(3) len)
  then have 4: "\<exists>(qs :: nat list) groups. int (length qs) = max 2 0 div 2 \<and> distinct qs
          \<and> rows TaxPayment (snd (seed_data Seeder demo_env 1 5 2)) = concat groups
          \<and> length groups = length qs"
    by blast
  show ?thesis by (intro conjI 1 2 3 4)
qed

theorem paid_flag_is_a_coin_flip_witness:
  "seed_data Seeder demo_env 1 5 2 = (Returned, snd (seed_data Seeder demo_env 1 5 2))
   \<and> seed_data Seeder demo_env_other_payments 1 5 2
       = (Returned, snd (seed_data Seeder demo_env_other_payments 1 5 2))
   \<and> map result (rows TaxBill (snd (seed_data Seeder demo_env_other_payments 1 5 2)))
       = map result (rows TaxBill (snd (seed_data Seeder demo_env 1 5 2)))
   \<and> map billed (rows TaxPayment (snd (seed_data Seeder demo_env_other_payments 1 5 2)))
       \<noteq> map billed (rows TaxPayment (snd (seed_data Seeder demo_env 1 5 2)))
   \<and> distinct (map result (rows TaxBill (snd (seed_data Seeder demo_env 1 5 2))))
   \<and> paid_keys (snd (seed_data Seeder demo_env_other_payments 1 5 2))
       = paid_keys (snd (seed_data Seeder demo_env 1 5 2))
   \<and> paid_keys (snd (seed_data Seeder demo_env 1 5 2)) = [Some [VDate 738000, VInt 33]]"
proof -
  have "fst (seed_data Seeder demo_env 1 5 2) = Returned" by code_simp
  then have 1: "seed_data Seeder demo_env 1 5 2 = (Returned, snd (seed_data Seeder demo_env 1 5 2))"
    by (rule returned_run)
  have "fst (seed_data Seeder demo_env_other_payments 1 5 2) = Returned" by code_simp
  then have 2: "seed_data Seeder demo_env_other_payments 1 5 2
       = (Returned, snd (seed_data Seeder demo_env_other_payments 1 5 2))"
    by (rule returned_run)
  have 3: "map result (rows TaxBill (snd (seed_data Seeder demo_env_other_payments 1 5 2)))
       = map result (rows TaxBill (snd (seed_data Seeder demo_env 1 5 2)))"
    by code_simp
  have 4: "\<forall>i<length (rows TaxBill (snd (seed_data Seeder demo_env 1 5 2))).
      below_half (rnd demo_env_other_payments PaidCoin i 0) = below_half (rnd demo_env PaidCoin i 0)"
    by (simp add: demo_env_other_payments_def)
  have 5: "map billed (rows TaxPayment (snd (seed_data Seeder demo_env_other_payments 1 5 2)))
       \<noteq> map billed (rows TaxPayment (snd (seed_data Seeder demo_env 1 5 2)))"
    by code_simp
  have 6: "distinct (map result (rows TaxBill (snd (seed_data Seeder demo_env 1 5 2))))"
    by code_simp
  have 7: "paid_keys (snd (seed_data Seeder demo_env 1 5 2)) = [Some [VDate 738000, VInt 33]]"
    by code_simp
  from paid_flag_is_a_coin_flip[OF 1 2 3 4] 1 2 3 5 6 7 show ?thesis by simp
qed

section \<open>Commit, rollback and the exception that leaves the procedure\<close>


lemma no_commit_in_statements [simp]: "Commit \<notin> Execute ` set es"
  by auto




section \<open>Bills without parcels or parties\<close>










section \<open>Identifiers are created before they are used\<close>

lemma identifiers_eq:
  "identifiers =
     [(LA_Party, [''party_id'']), (LA_SpatialUnit, [''spatial_unit_id'']),
      (LA_BAUnit, [''ba_unit_id'']), (TaxRateArea, [''tra_id'']),
      (TaxRate, [''tax_rate_id'']), (TaxBill, [''bill_date'', ''bill_uid''])]"
  by (simp add: identifiers_def returning_of_def sql_defs)

lemma bound_absent: "c \<notin> set (bound_columns (query e)) \<Longrightarrow> bound e c = None"
  by (auto simp: bound_def map_of_eq_None_iff dest: set_zip_leftD)

lemma references_rows:
  "party_row e \<Longrightarrow> references e = []"
  "spatial_row e \<Longrightarrow> references e = []"
  "tra_row e \<Longrightarrow> references e = []"
  "rate_row e \<Longrightarrow> references e = []"
  by (auto simp: party_row_def spatial_row_def tra_row_def rate_row_def
      references_def identifiers_eq bound_absent sql_defs)

lemma references_baunit:
  "baunit_row sid e \<Longrightarrow> set (references e) \<subseteq> {(LA_SpatialUnit, [sid])}"
  by (auto simp: baunit_row_def references_def identifiers_eq sql_defs bound_def
      split: if_splits)

lemma references_rows2:
  "assign_row tra_ids buid e \<Longrightarrow>
     set (references e) \<subseteq> insert (LA_BAUnit, [buid]) ((\<lambda>t. (TaxRateArea, [t])) ` set tra_ids)"
  "assessment_row rate_ids buid e \<Longrightarrow>
     set (references e) \<subseteq> insert (LA_BAUnit, [buid]) ((\<lambda>t. (TaxRate, [t])) ` set rate_ids)"
  "supplemental_row rate_ids buid e \<Longrightarrow>
     set (references e) \<subseteq> insert (LA_BAUnit, [buid]) ((\<lambda>t. (TaxRate, [t])) ` set rate_ids)"
  "rrr_row party_ids buid e \<Longrightarrow>
     set (references e) \<subseteq> insert (LA_BAUnit, [buid]) ((\<lambda>t. (LA_Party, [t])) ` set party_ids)"
  "bill_row party_ids baunit_ids e \<Longrightarrow>
     set (references e) \<subseteq> (\<lambda>t. (LA_BAUnit, [t])) ` set baunit_ids
        \<union> (\<lambda>t. (LA_Party, [t])) ` set party_ids"
  by (auto simp: assign_row_def assessment_row_def supplemental_row_def rrr_row_def bill_row_def
      references_def identifiers_eq sql_defs bound_def split: if_splits)

lemma references_payment:
  assumes "payment_rows bill es" and "e \<in> set es"
  shows "\<exists>d u. bill = Some [d, u] \<and> set (references e) \<subseteq> {(TaxBill, [d, u])}"
  using assms
  by (auto simp: payment_rows_def list_all_iff references_def identifiers_eq sql_defs bound_def
      split: if_splits)

lemma references_paid:
  assumes "paid_rows env x es" and "e \<in> set es"
  shows "\<exists>d u. snd x = Some [d, u] \<and> set (references e) \<subseteq> {(TaxBill, [d, u])}"
  using assms
  by (auto simp: paid_rows_def references_def identifiers_eq sql_defs bound_def
      split: if_splits)

lemma creates_rows:
  "party_row e \<Longrightarrow> creates e = [(LA_Party, [fetched e])]"
  "spatial_row e \<Longrightarrow> creates e = [(LA_SpatialUnit, [fetched e])]"
  "baunit_row sid e \<Longrightarrow> creates e = [(LA_BAUnit, [fetched e])]"
  "tra_row e \<Longrightarrow> creates e = [(TaxRateArea, [fetched e])]"
  "rate_row e \<Longrightarrow> creates e = [(TaxRate, [fetched e])]"
  "result e = Some [d, u] \<Longrightarrow> bill_row party_ids baunit_ids e \<Longrightarrow> creates e = [(TaxBill, [d, u])]"
  by (auto simp: party_row_def spatial_row_def baunit_row_def tra_row_def rate_row_def
      bill_row_def creates_def returning_of_def sql_defs fetched_def keyed_def
      split: option.splits list.splits)


lemma no_dangling_append:
  "no_dangling known (xs @ ys) \<longleftrightarrow>
     no_dangling known xs \<and> no_dangling (known @ concat (map creates xs)) ys"
  by (induction xs arbitrary: known) simp_all

lemma no_dangling_allI:
  assumes "\<And>e. e \<in> set es \<Longrightarrow> set (references e) \<subseteq> set known"
  shows "no_dangling known es"
  using assms
proof (induction es arbitrary: known)
  case Nil
  show ?case by simp
next
  case (Cons e es)
  have "no_dangling (known @ creates e) es"
  proof (rule Cons.IH)
    fix e' assume "e' \<in> set es"
    then have "set (references e') \<subseteq> set known" using Cons.prems by simp
    then show "set (references e') \<subseteq> set (known @ creates e)" by auto
  qed
  moreover have "set (references e) \<subseteq> set known" using Cons.prems by simp
  ultimately show ?case by (auto simp: list_all_iff)
qed

lemma no_dangling_nth:
  assumes "no_dangling known es" and "i < length es" and "r \<in> set (references (es ! i))"
  shows "r \<in> set known \<or> (\<exists>j<i. r \<in> set (creates (es ! j)))"
  using assms
proof (induction es arbitrary: known i)
  case Nil
  then show ?case by simp
next
  case (Cons e es)
  show ?case
  proof (cases i)
    case 0
    with Cons.prems show ?thesis by (auto simp: list_all_iff)
  next
    case (Suc i')
    with Cons.prems have "no_dangling (known @ creates e) es" "i' < length es"
      "r \<in> set (references (es ! i'))" by simp_all
    from Cons.IH[OF this] have "r \<in> set known \<or> r \<in> set (creates e)
        \<or> (\<exists>j<i'. r \<in> set (creates (es ! j)))" by auto
    then show ?thesis
    proof (elim disjE exE conjE)
      assume "r \<in> set known" then show ?thesis by simp
    next
      assume "r \<in> set (creates e)"
      then have "0 < i \<and> r \<in> set (creates ((e # es) ! 0))" using Suc by simp
      then show ?thesis by blast
    next
      fix j assume "j < i'" "r \<in> set (creates (es ! j))"
      then have "Suc j < i \<and> r \<in> set (creates ((e # es) ! Suc j))" using Suc by simp
      then show ?thesis by blast
    qed
  qed
qed

lemma returned_no_dangling:
  assumes "seed_data sc env n m k = (Returned, w)"
  shows "no_dangling [] (executed (calls w))"
  using assms
proof (rule seed_data_success)
  fix es1 es2 es3 es4 es5 es6 es7 es8 es9 es10 ess11 ess12 ps qs
  assume c: "calls w = map Execute
       (es1 @ es2 @ es3 @ es4 @ es5 @ es6 @ es7 @ es8 @ es9 @ es10 @ concat ess11 @ concat ess12)
       @ [Commit, CursorClose, ConnClose]"
  assume f1: "list_all party_row es1" and f2: "list_all spatial_row es2"
    and f3: "list_all2 baunit_row (map fetched es2) es3"
    and f4: "list_all tra_row es4" and f5: "list_all rate_row es5"
    and f6: "list_all2 (assign_row (map fetched es4)) (map fetched es3) es6"
    and f7: "list_all2 (assessment_row (map fetched es5)) (map fetched es3) es7"
    and ps: "set ps \<subseteq> {..<length es3}"
    and f8: "list_all2 (supplemental_row (map fetched es5)) (map ((!) (map fetched es3)) ps) es8"
    and f9: "list_all2 (rrr_row (map fetched es1)) (map fetched es3) es9"
    and l10: "length es10 = nat k"
    and f10: "list_all (bill_row (map fetched es1) (map fetched es3)) es10"
    and qs: "set qs \<subseteq> {..<nat k}"
    and f11: "list_all2 payment_rows (map ((!) (map result es10)) qs) ess11"
    and f12: "list_all2 (paid_rows env) (enumerate 0 (map result es10)) ess12"
  have ex: "executed (calls w) =
       es1 @ es2 @ es3 @ es4 @ es5 @ es6 @ es7 @ es8 @ es9 @ es10 @ concat ess11 @ concat ess12"
    by (simp add: c)
  have k1: "(LA_Party, [fetched e]) \<in> set (concat (map creates es1))" if "e \<in> set es1" for e
    using that f1 by (auto simp: list_all_iff creates_rows intro!: bexI[of _ e])
  have k2: "(LA_SpatialUnit, [fetched e]) \<in> set (concat (map creates es2))"
    if "e \<in> set es2" for e
    using that f2 by (auto simp: list_all_iff creates_rows intro!: bexI[of _ e])
  have k3: "(LA_BAUnit, [fetched e]) \<in> set (concat (map creates es3))" if "e \<in> set es3" for e
  proof -
    from f3 that obtain sid where "baunit_row sid e" by (rule list_all2_rightD)
    then have "creates e = [(LA_BAUnit, [fetched e])]" by (rule creates_rows)
    with that show ?thesis by (auto intro!: bexI[of _ e])
  qed
  have k4: "(TaxRateArea, [fetched e]) \<in> set (concat (map creates es4))" if "e \<in> set es4" for e
    using that f4 by (auto simp: list_all_iff creates_rows intro!: bexI[of _ e])
  have k5: "(TaxRate, [fetched e]) \<in> set (concat (map creates es5))" if "e \<in> set es5" for e
    using that f5 by (auto simp: list_all_iff creates_rows intro!: bexI[of _ e])
  have k10: "(TaxBill, [d, u]) \<in> set (concat (map creates es10))"
    if "e \<in> set es10" and "result e = Some [d, u]" for e d u
  proof -
    from f10 that(1) have "bill_row (map fetched es1) (map fetched es3) e"
      by (simp add: list_all_iff)
    with that(2) have "creates e = [(TaxBill, [d, u])]" by (rule creates_rows)
    with that show ?thesis by (auto intro!: bexI[of _ e])
  qed
  have v1: "(LA_Party, [v]) \<in> set (concat (map creates es1))"
    if "v \<in> set (map fetched es1)" for v
  proof -
    from that obtain e where "e \<in> set es1" "v = fetched e" by auto
    with k1[of e] show ?thesis by simp
  qed
  have v2: "(LA_SpatialUnit, [v]) \<in> set (concat (map creates es2))"
    if "v \<in> set (map fetched es2)" for v
  proof -
    from that obtain e where "e \<in> set es2" "v = fetched e" by auto
    with k2[of e] show ?thesis by simp
  qed
  have v3: "(LA_BAUnit, [v]) \<in> set (concat (map creates es3))"
    if "v \<in> set (map fetched es3)" for v
  proof -
    from that obtain e where "e \<in> set es3" "v = fetched e" by auto
    with k3[of e] show ?thesis by simp
  qed
  have v4: "(TaxRateArea, [v]) \<in> set (concat (map creates es4))"
    if "v \<in> set (map fetched es4)" for v
  proof -
    from that obtain e where "e \<in> set es4" "v = fetched e" by auto
    with k4[of e] show ?thesis by simp
  qed
  have v5: "(TaxRate, [v]) \<in> set (concat (map creates es5))"
    if "v \<in> set (map fetched es5)" for v
  proof -
    from that obtain e where "e \<in> set es5" "v = fetched e" by auto
    with k5[of e] show ?thesis by simp
  qed
  have sub: "x \<in> set (map fetched es3)" if "x \<in> set (map ((!) (map fetched es3)) ps)" for x
    using that ps by auto
  have r1: "set (references e) \<subseteq> {}" if "e \<in> set es1" for e
    using that f1 by (simp add: list_all_iff references_rows)
  have r2: "set (references e) \<subseteq> {}" if "e \<in> set es2" for e
    using that f2 by (simp add: list_all_iff references_rows)
  have r3: "set (references e) \<subseteq> set (concat (map creates es2))" if "e \<in> set es3" for e
  proof -
    from f3 that obtain sid where "sid \<in> set (map fetched es2)" "baunit_row sid e"
      by (rule list_all2_rightD)
    with references_baunit[of sid e] v2 show ?thesis by blast
  qed
  have r4: "set (references e) \<subseteq> {}" if "e \<in> set es4" for e
    using that f4 by (simp add: list_all_iff references_rows)
  have r5: "set (references e) \<subseteq> {}" if "e \<in> set es5" for e
    using that f5 by (simp add: list_all_iff references_rows)
  have r6: "set (references e) \<subseteq> set (concat (map creates es3)) \<union> set (concat (map creates es4))"
    if "e \<in> set es6" for e
  proof -
    from f6 that obtain x where "x \<in> set (map fetched es3)"
      "assign_row (map fetched es4) x e" by (rule list_all2_rightD)
    with references_rows2(1)[of "map fetched es4" x e] v3 v4 show ?thesis by blast
  qed
  have r7: "set (references e) \<subseteq> set (concat (map creates es3)) \<union> set (concat (map creates es5))"
    if "e \<in> set es7" for e
  proof -
    from f7 that obtain x where "x \<in> set (map fetched es3)"
      "assessment_row (map fetched es5) x e" by (rule list_all2_rightD)
    with references_rows2(2)[of "map fetched es5" x e] v3 v5 show ?thesis by blast
  qed
  have r8: "set (references e) \<subseteq> set (concat (map creates es3)) \<union> set (concat (map creates es5))"
    if "e \<in> set es8" for e
  proof -
    from f8 that obtain x where "x \<in> set (map ((!) (map fetched es3)) ps)"
      "supplemental_row (map fetched es5) x e" by (rule list_all2_rightD)
    with sub[of x] references_rows2(3)[of "map fetched es5" x e] v3 v5 show ?thesis by blast
  qed
  have r9: "set (references e) \<subseteq> set (concat (map creates es1)) \<union> set (concat (map creates es3))"
    if "e \<in> set es9" for e
  proof -
    from f9 that obtain x where "x \<in> set (map fetched es3)"
      "rrr_row (map fetched es1) x e" by (rule list_all2_rightD)
    with references_rows2(4)[of "map fetched es1" x e] v1 v3 show ?thesis by blast
  qed
  have r10: "set (references e) \<subseteq> set (concat (map creates es1)) \<union> set (concat (map creates es3))"
    if "e \<in> set es10" for e
  proof -
    from f10 that have "bill_row (map fetched es1) (map fetched es3) e"
      by (simp add: list_all_iff)
    with references_rows2(5)[of "map fetched es1" "map fetched es3" e] v1 v3
    show ?thesis by blast
  qed
  have r11: "set (references e) \<subseteq> set (concat (map creates es10))"
    if "e \<in> set (concat ess11)" for e
  proof -
    from that obtain es where es: "es \<in> set ess11" "e \<in> set es" by auto
    from f11 es(1) obtain x where x: "x \<in> set (map ((!) (map result es10)) qs)"
      "payment_rows x es" by (rule list_all2_rightD)
    from x(1) obtain q where q: "q \<in> set qs" "x = map result es10 ! q" by auto
    with qs l10 have "q < length es10" by auto
    with q(2) have "es10 ! q \<in> set es10" "x = result (es10 ! q)" by simp_all
    then obtain b where b: "b \<in> set es10" "x = result b" by blast
    from references_payment[OF x(2) es(2)] obtain d u where
      "x = Some [d, u]" "set (references e) \<subseteq> {(TaxBill, [d, u])}" by blast
    with b k10[of b d u] show ?thesis by fastforce
  qed
  have r12: "set (references e) \<subseteq> set (concat (map creates es10))"
    if "e \<in> set (concat ess12)" for e
  proof -
    from that obtain es where es: "es \<in> set ess12" "e \<in> set es" by auto
    from f12 es(1) obtain x where x: "x \<in> set (enumerate 0 (map result es10))"
      "paid_rows env x es" by (rule list_all2_rightD)
    from x(1) have "fst x < length es10" "snd x = result (es10 ! fst x)"
      by (auto simp: in_set_enumerate_eq)
    then have "es10 ! fst x \<in> set es10 \<and> snd x = result (es10 ! fst x)" by simp
    then obtain b where b: "b \<in> set es10" "snd x = result b" by blast
    from references_paid[OF x(2) es(2)] obtain d u where
      "snd x = Some [d, u]" "set (references e) \<subseteq> {(TaxBill, [d, u])}" by blast
    with b k10[of b d u] show ?thesis by fastforce
  qed
  show ?thesis
    unfolding ex no_dangling_append
  proof (intro conjI)
    show "no_dangling [] es1" by (rule no_dangling_allI) (use r1 in blast)
  qed (rule no_dangling_allI, use r2 r3 r4 r5 r6 r7 r8 r9 r10 r11 r12 in
        \<open>simp only: set_append; blast\<close>)+
qed


lemma references_of:
  "query e = bill_sql \<Longrightarrow> args e = [d, b, p, dd, a, ip, t, s] \<Longrightarrow>
     references e = (if p = VNone then [] else [(LA_Party, [p])])
                    @ (if b = VNone then [] else [(LA_BAUnit, [b])])"
  "query e = rrr_sql \<Longrightarrow> args e = [t, b, p, d] \<Longrightarrow>
     references e = (if p = VNone then [] else [(LA_Party, [p])])
                    @ (if b = VNone then [] else [(LA_BAUnit, [b])])"
  "query e = assessment_sql \<Longrightarrow> args e = [b, y, y', v, f, v', t, r] \<Longrightarrow>
     references e = (if b = VNone then [] else [(LA_BAUnit, [b])])
                    @ (if r = VNone then [] else [(TaxRate, [r])])"
  "query e = assign_tra_sql \<Longrightarrow> args e = [tra, b] \<Longrightarrow>
     references e = (if b = VNone then [] else [(LA_BAUnit, [b])])
                    @ (if tra = VNone then [] else [(TaxRateArea, [tra])])"
  "query e = payment_sql \<Longrightarrow> args e = [pd, bd, bu, a] \<Longrightarrow>
     references e = (if bd = VNone \<or> bu = VNone then [] else [(TaxBill, [bd, bu])])"
  by (simp_all add: references_def identifiers_eq sql_defs bound_def)

text \<open>
  Claim C7. In every run that returns, every identifier that a statement uses (the
  \<open>party_id\<close> and \<open>ba_unit_id\<close> of a bill and of an ownership record, the \<open>ba_unit_id\<close> and
  \<open>tax_rate_id\<close> of an assessment and of a supplemental assessment, the \<open>tra_id\<close> and
  \<open>ba_unit_id\<close> of the update that assigns a rate area to a unit, the \<open>spatial_unit_id\<close> of
  a unit, the pair \<open>(bill_date, bill_uid)\<close> of a payment and of the update of a paid flag)
  is the value that the row returned for an earlier insert of the same run has for the
  columns of its \<^verbatim>\<open>RETURNING\<close> clause, for the table that the identifier names. The
  \<^verbatim>\<open>None\<close> that seeder.py binds to \<open>tra_id\<close> and \<open>supplemental_id\<close> is \<^verbatim>\<open>NULL\<close> and names no
  row. Both scripts.
\<close>

theorem references_created_earlier:
  assumes "seed_data sc env num_parties num_parcels num_bills = (Returned, w)"
  shows "no_dangling [] (executed (calls w))
    \<and> (\<forall>i<length (executed (calls w)). \<forall>r\<in>set (references (executed (calls w) ! i)).
          \<exists>j<i. r \<in> set (creates (executed (calls w) ! j)))"
proof -
  from assms have 1: "no_dangling [] (executed (calls w))" by (rule returned_no_dangling)
  from no_dangling_nth[OF 1] show ?thesis using 1 by simp
qed

theorem references_created_earlier_witness:
  "seed_data Seeder demo_env 1 5 2 = (Returned, snd (seed_data Seeder demo_env 1 5 2))
   \<and> no_dangling [] (executed (calls (snd (seed_data Seeder demo_env 1 5 2))))
   \<and> map references (rows TaxBill (snd (seed_data Seeder demo_env 1 5 2))) =
       [[(LA_Party, [VInt 0]), (LA_BAUnit, [VInt 6])],
        [(LA_Party, [VInt 0]), (LA_BAUnit, [VInt 7])]]
   \<and> map references (rows TaxPayment (snd (seed_data Seeder demo_env 1 5 2))) =
       [[(TaxBill, [VDate 738000, VInt 33])]]
   \<and> map creates (rows TaxBill (snd (seed_data Seeder demo_env 1 5 2))) =
       [[(TaxBill, [VDate 738000, VInt 33])], [(TaxBill, [VDate 738000, VInt 34])]]
   \<and> \<not> no_dangling [] (rows TaxBill (snd (seed_data Seeder demo_env 1 5 2)))"
proof -
  have "fst (seed_data Seeder demo_env 1 5 2) = Returned" by code_simp
  then have 1: "seed_data Seeder demo_env 1 5 2 = (Returned, snd (seed_data Seeder demo_env 1 5 2))"
    by (rule returned_run)
  have 2: "map references (rows TaxBill (snd (seed_data Seeder demo_env 1 5 2))) =
       [[(LA_Party, [VInt 0]), (LA_BAUnit, [VInt 6])],
        [(LA_Party, [VInt 0]), (LA_BAUnit, [VInt 7])]]"
    by code_simp
  have 3: "map references (rows TaxPayment (snd (seed_data Seeder demo_env 1 5 2))) =
       [[(TaxBill, [VDate 738000, VInt 33])]]"
    by code_simp
  have 4: "map creates (rows TaxBill (snd (seed_data Seeder demo_env 1 5 2))) =
       [[(TaxBill, [VDate 738000, VInt 33])], [(TaxBill, [VDate 738000, VInt 34])]]"
    by code_simp
  have 5: "\<not> no_dangling [] (rows TaxBill (snd (seed_data Seeder demo_env 1 5 2)))"
    by code_simp
  from references_created_earlier[OF 1] 1 2 3 4 5 show ?thesis by simp
qed

end
